theory Spec2Isabelle
  imports Complex_Main "HOL-Library.Word"
begin

section \<open>JavaScript strings\<close>

text \<open>
  A JavaScript string is a sequence of 16-bit code units; \<open>length\<close> is its
  \<^verbatim>\<open>.length\<close>. Source literals are written with \<open>lit\<close>, which maps every
  character of an ASCII literal to its code unit.
\<close>

type_synonym code_unit = "16 word"

type_synonym js_string = "code_unit list"

definition lit :: "string \<Rightarrow> js_string" where
  "lit s = map of_char s"

definition LF :: code_unit where
  "LF = 0x0A"

text \<open>
  The code units that \<^verbatim>\<open>String.prototype.trim\<close> strips and that the regular
  expression class \<^verbatim>\<open>\s\<close> matches: the WhiteSpace and LineTerminator productions
  of ECMAScript (TAB, LF, VT, FF, CR, SP, NBSP, the Unicode space separators, LS, PS and
  the byte order mark).
\<close>

definition is_space :: "code_unit \<Rightarrow> bool" where
  "is_space c \<longleftrightarrow>
     c = 0x09 \<or> c = 0x0A \<or> c = 0x0B \<or> c = 0x0C \<or> c = 0x0D \<or> c = 0x20 \<or> c = 0xA0 \<or>
     c = 0x1680 \<or> (0x2000 \<le> c \<and> c \<le> 0x200A) \<or> c = 0x2028 \<or> c = 0x2029 \<or>
     c = 0x202F \<or> c = 0x205F \<or> c = 0x3000 \<or> c = 0xFEFF"

definition trim_start :: "js_string \<Rightarrow> js_string" where
  "trim_start s = dropWhile is_space s"

definition trim_end :: "js_string \<Rightarrow> js_string" where
  "trim_end s = rev (dropWhile is_space (rev s))"

definition trim :: "js_string \<Rightarrow> js_string" where
  "trim s = trim_end (trim_start s)"

section \<open>The rate limiter\<close>

text \<open>
  \<^verbatim>\<open>ipRequests\<close> is a module-level \<^verbatim>\<open>Map\<close> from the client key to
  \<^verbatim>\<open>{ count, timestamp }\<close>. The model passes the map in and returns it updated;
  \<^verbatim>\<open>Date.now()\<close> is the argument \<open>now\<close>, in milliseconds.
\<close>

record request_data =
  count :: nat
  timestamp :: int

type_synonym ip_requests = "js_string \<rightharpoonup> request_data"

definition RATE_LIMIT_WINDOW :: int where
  "RATE_LIMIT_WINDOW = 60 * 60 * 1000"

definition MAX_REQUESTS_PER_IP :: nat where
  "MAX_REQUESTS_PER_IP = 20"

definition isRateLimited :: "int \<Rightarrow> js_string \<Rightarrow> ip_requests \<Rightarrow> bool \<times> ip_requests" where
  "isRateLimited now ip ipRequests =
     (case ipRequests ip of
        None \<Rightarrow> (False, ipRequests(ip \<mapsto> \<lparr>count = 1, timestamp = now\<rparr>))
      | Some requestData \<Rightarrow>
          if now - timestamp requestData > RATE_LIMIT_WINDOW
          then (False, ipRequests(ip \<mapsto> \<lparr>count = 1, timestamp = now\<rparr>))
          else if count requestData \<ge> MAX_REQUESTS_PER_IP
          then (True, ipRequests)
          else (False, ipRequests(ip \<mapsto> requestData\<lparr>count := count requestData + 1\<rparr>)))"

text \<open>The hourly \<^verbatim>\<open>setInterval\<close> callback, which deletes the expired entries.\<close>

definition cleanup :: "int \<Rightarrow> ip_requests \<Rightarrow> ip_requests" where
  "cleanup now ipRequests =
     (\<lambda>ip. case ipRequests ip of
        None \<Rightarrow> None
      | Some data \<Rightarrow> if now - timestamp data > RATE_LIMIT_WINDOW then None else Some data)"

text \<open>
  A client key calling \<open>isRateLimited\<close> once at each time of a list, in order; the
  verdicts are collected in call order.
\<close>

fun sequential_requests :: "js_string \<Rightarrow> int list \<Rightarrow> ip_requests \<Rightarrow> bool list \<times> ip_requests" where
  "sequential_requests ip [] m = ([], m)"
| "sequential_requests ip (t # ts) m =
     (case isRateLimited t ip m of
        (limited, m') \<Rightarrow>
          (case sequential_requests ip ts m' of (rest, m'') \<Rightarrow> (limited # rest, m'')))"

section \<open>Input validation\<close>

definition MAX_TOKENS :: nat where
  "MAX_TOKENS = 30000"

text \<open>
  \<^verbatim>\<open>validateInput\<close> returns \<^verbatim>\<open>null\<close> (\<open>None\<close>) or an error message.
  \<^verbatim>\<open>!s.trim()\<close> holds exactly when the trimmed string is empty.
\<close>

definition validateInput :: "js_string \<Rightarrow> js_string \<Rightarrow> js_string option" where
  "validateInput ingredients steps =
     (if trim ingredients = [] \<or> trim steps = []
      then Some (lit ''Ingredients and steps are required.'')
      else
        let combinedLength = length ingredients + length steps in
        if combinedLength > MAX_TOKENS
        then Some (lit ''Input is too long. Please reduce the length of ingredients or steps.'')
        else None)"

section \<open>Cleaning the model's reply\<close>

definition starts_with :: "js_string \<Rightarrow> js_string \<Rightarrow> bool" where
  "starts_with p s \<longleftrightarrow> take (length p) s = p"

text \<open>
  One attempt of the regular expression \<^verbatim>\<open>/```json\n?|\n?```/\<close> at the head of a
  string: the number of code units it matches there, if it matches. The first alternative
  is tried first and its \<^verbatim>\<open>\n?\<close> is greedy; the second alternative matches a
  line feed followed by three backticks, or three backticks.
\<close>

definition fence_match :: "js_string \<Rightarrow> nat option" where
  "fence_match s =
     (if starts_with (lit ''```json'') s
      then Some (if starts_with [LF] (drop 7 s) then 8 else 7)
      else if starts_with (LF # lit ''```'') s then Some 4
      else if starts_with (lit ''```'') s then Some 3
      else None)"

text \<open>
  \<^verbatim>\<open>text.replace(/```json\n?|\n?```/g, "")\<close>: the scan goes left to right, removes
  a match where it finds one and resumes behind it, and otherwise keeps the code unit and
  moves on by one.
\<close>

function strip_fences :: "js_string \<Rightarrow> js_string" where
  "strip_fences [] = []"
| "strip_fences (c # cs) =
     (case fence_match (c # cs) of
        Some n \<Rightarrow> strip_fences (drop n (c # cs))
      | None \<Rightarrow> c # strip_fences cs)"
  by pat_completeness auto
termination
  by (relation "measure length") (auto simp: fence_match_def split: if_splits)

text \<open>
  \<^verbatim>\<open>.replace(/^[\s\n]*\{/, "{")\<close>: without the \<^verbatim>\<open>m\<close> flag the anchor matches at
  index 0 only, so the match is the leading white space when an opening brace (code unit
  \<open>0x7B\<close>) follows it.
\<close>

definition clean_start :: "js_string \<Rightarrow> js_string" where
  "clean_start s =
     (case dropWhile is_space s of
        [] \<Rightarrow> s
      | c # cs \<Rightarrow> if c = 0x7B then c # cs else s)"

text \<open>
  \<^verbatim>\<open>.replace(/\}[\s\n]*$/, "}")\<close>: the leftmost closing brace (code unit \<open>0x7D\<close>)
  that only white space follows up to the end of the input; that white space is removed.
\<close>

fun clean_end :: "js_string \<Rightarrow> js_string" where
  "clean_end [] = []"
| "clean_end (c # cs) =
     (if c = 0x7D \<and> list_all is_space cs then [c] else c # clean_end cs)"

definition clean :: "js_string \<Rightarrow> js_string" where
  "clean text = trim (clean_end (clean_start (strip_fences text)))"

text \<open>
  Notions of the specification about fences: a text has a fence when three backticks
  stand in a row somewhere in it; \<open>fence_count\<close> is the number of fence delimiters the
  scan of \<open>strip_fences\<close> finds and removes; \<open>fenced\<close> wraps a text in
  \<^verbatim>\<open>```json\<close> and \<^verbatim>\<open>```\<close> lines.
\<close>

fun has_fence :: "js_string \<Rightarrow> bool" where
  "has_fence [] = False"
| "has_fence (c # cs) = (starts_with (lit ''```'') (c # cs) \<or> has_fence cs)"

function fence_count :: "js_string \<Rightarrow> nat" where
  "fence_count [] = 0"
| "fence_count (c # cs) =
     (case fence_match (c # cs) of
        Some n \<Rightarrow> Suc (fence_count (drop n (c # cs)))
      | None \<Rightarrow> fence_count cs)"
  by pat_completeness auto
termination
  by (relation "measure length") (auto simp: fence_match_def split: if_splits)

definition fenced :: "js_string \<Rightarrow> js_string" where
  "fenced s = lit ''```json'' @ [LF] @ s @ [LF] @ lit ''```''"

section \<open>JSON values and the recipe checks\<close>

text \<open>
  The values \<^verbatim>\<open>JSON.parse\<close> returns. A number is a double; the handler looks at a
  number only through its truthiness, which is false at both zeros. An object is the
  list of its own properties in property order, with distinct keys.
\<close>

datatype js_number = Finite rat | NegZero | PosInfinity | NegInfinity

datatype json =
    JNull
  | JBool bool
  | JNum js_number
  | JStr js_string
  | JArr "json list"
  | JObj "(js_string \<times> json) list"

fun truthy :: "json \<Rightarrow> bool" where
  "truthy JNull = False"
| "truthy (JBool b) = b"
| "truthy (JNum n) = (n \<noteq> Finite 0 \<and> n \<noteq> NegZero)"
| "truthy (JStr s) = (s \<noteq> [])"
| "truthy (JArr xs) = True"
| "truthy (JObj ps) = True"

text \<open>
  The result of a property read is a value or \<^verbatim>\<open>undefined\<close> (\<open>None\<close>);
  \<open>not_js\<close> is the operator \<^verbatim>\<open>!\<close>. \<open>get_property\<close> is \<^verbatim>\<open>v[k]\<close> on a
  value other than \<^verbatim>\<open>null\<close>, for the keys the handler reads: none of them is a
  property that arrays, strings or \<^verbatim>\<open>Object.prototype\<close> provide.
\<close>

definition not_js :: "json option \<Rightarrow> bool" where
  "not_js v = (case v of None \<Rightarrow> True | Some j \<Rightarrow> \<not> truthy j)"

fun get_property :: "json \<Rightarrow> js_string \<Rightarrow> json option" where
  "get_property (JObj ps) k = map_of ps k"
| "get_property v k = None"

fun isArray :: "json option \<Rightarrow> bool" where
  "isArray (Some (JArr xs)) = True"
| "isArray v = False"

fun array_length :: "json option \<Rightarrow> nat" where
  "array_length (Some (JArr xs)) = length xs"
| "array_length v = 0"

text \<open>\<^verbatim>\<open>Array.prototype.join\<close> on an array of strings.\<close>

fun join :: "js_string \<Rightarrow> js_string list \<Rightarrow> js_string" where
  "join sep [] = []"
| "join sep [x] = x"
| "join sep (x # y # ys) = x @ sep @ join sep (y # ys)"

text \<open>
  What a \<^verbatim>\<open>throw\<close> carries: an \<^verbatim>\<open>Error\<close> made by the handler with its message, a
  \<^verbatim>\<open>SyntaxError\<close> of the JSON parser with its message, a \<^verbatim>\<open>TypeError\<close> of the
  engine, or a value that is no instance of \<^verbatim>\<open>Error\<close>. The engine throws a
  \<^verbatim>\<open>TypeError\<close> in four places: where \<^verbatim>\<open>null\<close> is destructured, where
  \<^verbatim>\<open>.trim()\<close> is called on a variable whose value is not a string, where a
  property of \<^verbatim>\<open>null\<close> is read, and where the template literal of the prompt
  converts a value to a string that has no primitive value (an object whose own
  \<^verbatim>\<open>toString\<close> property is not a function).
\<close>

datatype type_error =
    DestructureNull
  | TrimOfNonString js_string "json option"
  | PropertyOfNull js_string
  | ToPrimitive json

datatype thrown = Error js_string | SyntaxError js_string | TypeError type_error | NonError

definition requiredFields :: "js_string list" where
  "requiredFields =
     [lit ''name'', lit ''titleVariations'', lit ''servings'', lit ''prepTime'', lit ''cookTime'',
      lit ''ingredients'', lit ''instructions'']"

definition missingFields :: "json \<Rightarrow> js_string list" where
  "missingFields recipe = filter (\<lambda>field. not_js (get_property recipe field)) requiredFields"

text \<open>
  The checks between \<^verbatim>\<open>JSON.parse\<close> and the response. Reading a property of
  \<^verbatim>\<open>null\<close> throws a \<^verbatim>\<open>TypeError\<close>, at the first field the filter reads.
\<close>

definition recipe_checks :: "json \<Rightarrow> thrown + json" where
  "recipe_checks recipe =
     (if recipe = JNull then Inl (TypeError (PropertyOfNull (lit ''name'')))
      else if length (missingFields recipe) > 0
      then Inl (Error (lit ''Missing required fields: '' @ join (lit '', '') (missingFields recipe)))
      else if \<not> isArray (get_property recipe (lit ''titleVariations''))
              \<or> array_length (get_property recipe (lit ''titleVariations'')) = 0
      then Inl (Error (lit ''titleVariations must be a non-empty array''))
      else if \<not> isArray (get_property recipe (lit ''ingredients''))
              \<or> array_length (get_property recipe (lit ''ingredients'')) = 0
      then Inl (Error (lit ''ingredients must be a non-empty array''))
      else if \<not> isArray (get_property recipe (lit ''instructions''))
              \<or> array_length (get_property recipe (lit ''instructions'')) = 0
      then Inl (Error (lit ''instructions must be a non-empty array''))
      else Inr recipe)"

section \<open>The request handler\<close>

text \<open>
  What the handler takes from outside the repository is a parameter of the model:
  \<^verbatim>\<open>JSON.parse\<close> (a text is parsed to a value, or a \<^verbatim>\<open>SyntaxError\<close> with a
  message is thrown), the call of the generative model followed by
  \<^verbatim>\<open>response.text()\<close> (a text, or something is thrown), the message texts of the
  engine's \<^verbatim>\<open>TypeError\<close>s, and the string conversion a template literal applies to a
  value that is not a string (a text, or something is thrown: the conversion of an object
  with an own \<^verbatim>\<open>toString\<close> property, which in a JSON value is never a function,
  throws a \<^verbatim>\<open>TypeError\<close>).
\<close>

record platform =
  JSON_parse :: "js_string \<Rightarrow> js_string + json"
  generateContent :: "js_string \<Rightarrow> thrown + js_string"
  type_error_message :: "type_error \<Rightarrow> js_string"
  to_string :: "json option \<Rightarrow> thrown + js_string"

text \<open>
  A request: the value of the \<^verbatim>\<open>x-forwarded-for\<close> header (\<open>None\<close> when absent) and
  the outcome of \<^verbatim>\<open>await req.json()\<close>, a value or a throw.
\<close>

record request =
  forwarded_for :: "js_string option"
  json_body :: "thrown + json"

text \<open>
  \<^verbatim>\<open>NextResponse.json(body, { status })\<close>: the status and the value handed over for
  serialisation; the status is 200 when none is given.
\<close>

record response =
  status :: nat
  body :: json

definition json_response :: "json \<Rightarrow> nat \<Rightarrow> response" where
  "json_response v st = \<lparr>status = st, body = v\<rparr>"

definition error_body :: "js_string \<Rightarrow> json" where
  "error_body m = JObj [(lit ''error'', JStr m)]"

text \<open>\<^verbatim>\<open>error instanceof Error ? error.message : ...\<close>: the message, if there is one.\<close>

fun message :: "platform \<Rightarrow> thrown \<Rightarrow> js_string option" where
  "message pf (Error m) = Some m"
| "message pf (SyntaxError m) = Some m"
| "message pf (TypeError t) = Some (type_error_message pf t)"
| "message pf NonError = None"

text \<open>
  \<^verbatim>\<open>forwardedFor ? forwardedFor.split(",")[0] : "unknown"\<close>: an absent or empty header
  gives the fallback key, any other the text before its first comma (code unit \<open>0x2C\<close>).
\<close>

definition client_ip :: "js_string option \<Rightarrow> js_string" where
  "client_ip forwardedFor =
     (case forwardedFor of
        None \<Rightarrow> lit ''unknown''
      | Some h \<Rightarrow> if h = [] then lit ''unknown'' else takeWhile (\<lambda>c. c \<noteq> 0x2C) h)"

text \<open>\<^verbatim>\<open>typeof v === "string"\<close> for the result of a property read.\<close>

fun is_string :: "json option \<Rightarrow> bool" where
  "is_string (Some (JStr s)) = True"
| "is_string v = False"

text \<open>
  The call \<^verbatim>\<open>validateInput(ingredients, steps)\<close> as it runs on the values taken from
  the body, whatever they are: \<^verbatim>\<open>.trim()\<close> on a value that is not a string throws
  a \<^verbatim>\<open>TypeError\<close>, and \<^verbatim>\<open>||\<close> does not evaluate \<^verbatim>\<open>steps.trim()\<close> when
  \<^verbatim>\<open>ingredients.trim()\<close> is empty.
\<close>

definition validateInput_call :: "json option \<Rightarrow> json option \<Rightarrow> thrown + js_string option" where
  "validateInput_call ingredients steps =
     (case ingredients of
        Some (JStr i) \<Rightarrow>
          if trim i = [] then Inr (Some (lit ''Ingredients and steps are required.''))
          else
            (case steps of
               Some (JStr s) \<Rightarrow> Inr (validateInput i s)
             | _ \<Rightarrow> Inl (TypeError (TrimOfNonString (lit ''steps'') steps)))
      | _ \<Rightarrow> Inl (TypeError (TrimOfNonString (lit ''ingredients'') ingredients)))"

text \<open>
  \<^verbatim>\<open>${v}\<close> in a template literal: a string stands for itself, any other value is
  converted, and the conversion may throw.
\<close>

definition interpolate :: "platform \<Rightarrow> json option \<Rightarrow> thrown + js_string" where
  "interpolate pf v = (case v of Some (JStr s) \<Rightarrow> Inr s | _ \<Rightarrow> to_string pf v)"

text \<open>The template literal of the prompt, line by line.\<close>

definition prompt_text :: "js_string \<Rightarrow> js_string \<Rightarrow> js_string \<Rightarrow> js_string" where
  "prompt_text tone ingredients steps = join [LF]
     [lit ''Generate a recipe in JSON format based on these ingredients and steps.'',
      [],
      lit ''IMPORTANT: You must respond with ONLY valid JSON. No other text or explanation.'',
      lit ''The JSON must exactly match this structure:'',
      lit ''{'',
      lit ''  \"name\": \"Recipe name (make it catchy and SEO-friendly)\",'',
      lit ''  \"titleVariations\": ['',
      lit ''    \"Original title\",'',
      lit ''    \"SEO-optimized variation 1\",'',
      lit ''    \"Social media friendly variation 2\",'',
      lit ''    \"Question-based variation 3\",'',
      lit ''    \"How-to variation 4\"'',
      lit ''  ],'',
      lit ''  \"servings\": \"number of servings as string\",'',
      lit ''  \"prepTime\": \"prep time in minutes as string\",'',
      lit ''  \"cookTime\": \"cook time in minutes as string\",'',
      lit ''  \"ingredients\": ['',
      lit ''    \"formatted ingredient 1\",'',
      lit ''    \"formatted ingredient 2\",'',
      lit ''    ...etc'',
      lit ''  ],'',
      lit ''  \"instructions\": ['',
      lit ''    \"formatted step 1\",'',
      lit ''    \"formatted step 2\",'',
      lit ''    ...etc'',
      lit ''  ]'',
      lit ''}'',
      [],
      lit ''Use '' @ tone @ lit '' tone for instructions.'',
      [],
      lit ''Ingredients:'',
      ingredients,
      [],
      lit ''Steps:'',
      steps]"

text \<open>The inner \<^verbatim>\<open>try\<close> block: clean the reply, parse it, check the fields.\<close>

definition parse_recipe :: "platform \<Rightarrow> js_string \<Rightarrow> thrown + json" where
  "parse_recipe pf text =
     (let cleanText = clean text in
      case JSON_parse pf cleanText of
        Inl m \<Rightarrow> Inl (SyntaxError m)
      | Inr recipe \<Rightarrow> recipe_checks recipe)"

text \<open>The inner \<^verbatim>\<open>try\<close> with its \<^verbatim>\<open>catch\<close>: always a response.\<close>

definition parse_response :: "platform \<Rightarrow> js_string \<Rightarrow> response" where
  "parse_response pf text =
     (case parse_recipe pf text of
        Inr recipe \<Rightarrow> json_response recipe 200
      | Inl error \<Rightarrow>
          json_response
            (error_body (lit ''Invalid recipe format: '' @
               (case message pf error of Some m \<Rightarrow> m | None \<Rightarrow> lit ''Unknown error'')))
            500)"

text \<open>
  The outer \<^verbatim>\<open>try\<close> block behind the rate limit check: a response or a throw,
  together with the prompts sent to the generative model on the way. Destructuring
  \<^verbatim>\<open>null\<close> throws; the validator's messages are non-empty, so
  \<^verbatim>\<open>if (validationError)\<close> holds exactly when a message came back. The template
  literal converts \<^verbatim>\<open>tone\<close>, \<^verbatim>\<open>ingredients\<close> and \<^verbatim>\<open>steps\<close> in this order,
  and a conversion that throws ends the block before anything is sent.
\<close>

definition POST_body :: "platform \<Rightarrow> request \<Rightarrow> (thrown + response) \<times> js_string list" where
  "POST_body pf req =
     (case json_body req of
        Inl error \<Rightarrow> (Inl error, [])
      | Inr b \<Rightarrow>
          if b = JNull then (Inl (TypeError DestructureNull), [])
          else
            let ingredients = get_property b (lit ''ingredients'');
                steps = get_property b (lit ''steps'');
                tone = get_property b (lit ''tone'')
            in
              (case validateInput_call ingredients steps of
                 Inl error \<Rightarrow> (Inl error, [])
               | Inr (Some validationError) \<Rightarrow>
                   (Inr (json_response (error_body validationError) 400), [])
               | Inr None \<Rightarrow>
                   (case interpolate pf tone of
                      Inl error \<Rightarrow> (Inl error, [])
                    | Inr toneText \<Rightarrow>
                        (case interpolate pf ingredients of
                           Inl error \<Rightarrow> (Inl error, [])
                         | Inr ingredientsText \<Rightarrow>
                             (case interpolate pf steps of
                                Inl error \<Rightarrow> (Inl error, [])
                              | Inr stepsText \<Rightarrow>
                                  let prompt = prompt_text toneText ingredientsText stepsText in
                                    (case generateContent pf prompt of
                                       Inl error \<Rightarrow> (Inl error, [prompt])
                                     | Inr text \<Rightarrow>
                                         (Inr (parse_response pf text), [prompt])))))))"

text \<open>
  The handler: the response, the rate limiter's map after the call, and the prompts sent.
\<close>

record outcome =
  response :: response
  store :: ip_requests
  prompts :: "js_string list"

definition POST :: "platform \<Rightarrow> int \<Rightarrow> request \<Rightarrow> ip_requests \<Rightarrow> outcome" where
  "POST pf now req ipRequests =
     (let ip = client_ip (forwarded_for req) in
      case isRateLimited now ip ipRequests of
        (limited, ipRequests') \<Rightarrow>
          if limited
          then \<lparr>response = json_response
                   (error_body (lit ''Rate limit exceeded. Please try again later.'')) 429,
                store = ipRequests', prompts = []\<rparr>
          else
            (case POST_body pf req of
               (Inr resp, sent) \<Rightarrow> \<lparr>response = resp, store = ipRequests', prompts = sent\<rparr>
             | (Inl error, sent) \<Rightarrow>
                 \<lparr>response = json_response
                    (error_body
                       (case message pf error of
                          Some m \<Rightarrow> m
                        | None \<Rightarrow> lit ''Failed to generate recipe''))
                    500,
                  store = ipRequests', prompts = sent\<rparr>))"

section \<open>Recipes\<close>

text \<open>
  The \<^verbatim>\<open>Recipe\<close> of the client: the title variations are there in one of its two
  declarations and absent in the other. \<open>json_of_recipe\<close> is the JSON value of a recipe,
  its properties in declaration order.
\<close>

record recipe =
  name :: js_string
  titleVariations :: "js_string list option"
  servings :: js_string
  prepTime :: js_string
  cookTime :: js_string
  ingredients :: "js_string list"
  instructions :: "js_string list"

definition json_of_recipe :: "recipe \<Rightarrow> json" where
  "json_of_recipe r = JObj
     ([(lit ''name'', JStr (name r))]
      @ (case titleVariations r of
           None \<Rightarrow> []
         | Some tv \<Rightarrow> [(lit ''titleVariations'', JArr (map JStr tv))])
      @ [(lit ''servings'', JStr (servings r)),
         (lit ''prepTime'', JStr (prepTime r)),
         (lit ''cookTime'', JStr (cookTime r)),
         (lit ''ingredients'', JArr (map JStr (ingredients r))),
         (lit ''instructions'', JArr (map JStr (instructions r)))])"

text \<open>The invariant the specification gives a recipe: its sequences are not empty.\<close>

definition well_formed :: "recipe \<Rightarrow> bool" where
  "well_formed r \<longleftrightarrow>
     ingredients r \<noteq> [] \<and> instructions r \<noteq> []
     \<and> (case titleVariations r of None \<Rightarrow> True | Some tv \<Rightarrow> tv \<noteq> [])"

section \<open>The JSON text of a recipe\<close>

text \<open>
  \<^verbatim>\<open>JSON.stringify\<close> on a recipe, after ECMAScript: \<open>QuoteJSONString\<close> puts a string
  in double quotes, writes the quote, the backslash and the control characters as escapes,
  and a surrogate that is not half of a pair as a \<^verbatim>\<open>\u\<close> escape with lower-case
  hexadecimal digits; an array and an object are their members separated by commas, with no
  white space, and a property that is absent is left out.
\<close>

definition is_high_surrogate :: "code_unit \<Rightarrow> bool" where
  "is_high_surrogate c \<longleftrightarrow> 0xD800 \<le> c \<and> c \<le> 0xDBFF"

definition is_low_surrogate :: "code_unit \<Rightarrow> bool" where
  "is_low_surrogate c \<longleftrightarrow> 0xDC00 \<le> c \<and> c \<le> 0xDFFF"

definition hex_digit :: "nat \<Rightarrow> code_unit" where
  "hex_digit n = lit ''0123456789abcdef'' ! n"

definition UnicodeEscape :: "code_unit \<Rightarrow> js_string" where
  "UnicodeEscape c =
     [0x5C, 0x75, hex_digit (unat c div 4096 mod 16), hex_digit (unat c div 256 mod 16),
      hex_digit (unat c div 16 mod 16), hex_digit (unat c mod 16)]"

definition escape_unit :: "code_unit \<Rightarrow> js_string" where
  "escape_unit c =
     (if c = 0x08 then [0x5C, 0x62]
      else if c = 0x09 then [0x5C, 0x74]
      else if c = 0x0A then [0x5C, 0x6E]
      else if c = 0x0C then [0x5C, 0x66]
      else if c = 0x0D then [0x5C, 0x72]
      else if c = 0x22 then [0x5C, 0x22]
      else if c = 0x5C then [0x5C, 0x5C]
      else if c < 0x20 then UnicodeEscape c
      else [c])"

fun quote_units :: "js_string \<Rightarrow> js_string" where
  "quote_units [] = []"
| "quote_units [c] =
     (if is_high_surrogate c \<or> is_low_surrogate c then UnicodeEscape c else escape_unit c)"
| "quote_units (c # d # ds) =
     (if is_high_surrogate c \<and> is_low_surrogate d then c # d # quote_units ds
      else if is_high_surrogate c \<or> is_low_surrogate c then UnicodeEscape c @ quote_units (d # ds)
      else escape_unit c @ quote_units (d # ds))"

definition QuoteJSONString :: "js_string \<Rightarrow> js_string" where
  "QuoteJSONString s = 0x22 # quote_units s @ [0x22]"

definition string_array :: "js_string list \<Rightarrow> js_string" where
  "string_array xs = lit ''['' @ join (lit '','') (map QuoteJSONString xs) @ lit '']''"

definition member :: "js_string \<Rightarrow> js_string \<Rightarrow> js_string" where
  "member k v = QuoteJSONString k @ lit '':'' @ v"

definition stringify_recipe :: "recipe \<Rightarrow> js_string" where
  "stringify_recipe r =
     lit ''{'' @
     join (lit '','')
       ([member (lit ''name'') (QuoteJSONString (name r))]
        @ (case titleVariations r of
             None \<Rightarrow> []
           | Some tv \<Rightarrow> [member (lit ''titleVariations'') (string_array tv)])
        @ [member (lit ''servings'') (QuoteJSONString (servings r)),
           member (lit ''prepTime'') (QuoteJSONString (prepTime r)),
           member (lit ''cookTime'') (QuoteJSONString (cookTime r)),
           member (lit ''ingredients'') (string_array (ingredients r)),
           member (lit ''instructions'') (string_array (instructions r))])
     @ lit ''}''"

text \<open>All the strings of a recipe.\<close>

definition recipe_strings :: "recipe \<Rightarrow> js_string list" where
  "recipe_strings r =
     [name r, servings r, prepTime r, cookTime r]
     @ (case titleVariations r of None \<Rightarrow> [] | Some tv \<Rightarrow> tv)
     @ ingredients r @ instructions r"

text \<open>
  A text is guarded when it is not empty, neither starts nor ends with a backtick (code
  unit \<open>0x60\<close>), and has no fence.
\<close>

definition guarded :: "js_string \<Rightarrow> bool" where
  "guarded x \<longleftrightarrow> x \<noteq> [] \<and> hd x \<noteq> 0x60 \<and> last x \<noteq> 0x60 \<and> \<not> has_fence x"

section \<open>Example values\<close>

text \<open>The payloads and the platform that the statements below are evaluated at.\<close>

definition minimal_payload :: json where
  "minimal_payload = JObj [(lit ''name'', JStr (lit ''X'')), (lit ''servings'', JStr (lit ''2''))]"

definition empty_ingredients_fields :: "(js_string \<times> json) list" where
  "empty_ingredients_fields =
     [(lit ''name'', JStr (lit ''X'')), (lit ''servings'', JStr (lit ''2'')),
      (lit ''prepTime'', JStr (lit ''5'')), (lit ''cookTime'', JStr (lit ''5'')),
      (lit ''ingredients'', JArr []), (lit ''instructions'', JArr [JStr (lit ''step'')])]"

definition falsy_payload :: "(js_string \<times> json) list" where
  "falsy_payload =
     [(lit ''name'', JStr []), (lit ''titleVariations'', JArr [JStr (lit ''X'')]),
      (lit ''servings'', JNum (Finite 0)), (lit ''prepTime'', JBool False),
      (lit ''cookTime'', JNull), (lit ''ingredients'', JArr [JStr (lit ''egg'')]),
      (lit ''instructions'', JArr [JStr (lit ''mix'')])]"

text \<open>
  \<open>pancakes\<close> is the recipe of the specification's end-to-end scenario, which has no
  title variations; \<open>demo_recipe\<close> is the same recipe with one. \<open>demo_text\<close>,
  \<open>backtick_text\<close> and \<open>blank_step_text\<close> are the texts \<^verbatim>\<open>JSON.stringify\<close>
  gives for \<open>demo_recipe\<close>, \<open>backtick_recipe\<close> and \<open>blank_step_recipe\<close>. The
  parser of \<open>demo_platform\<close> knows one text, \<open>demo_text\<close>, and rejects every other;
  its generative model answers every prompt with that text in fences; its string
  conversion is the engine's on \<^verbatim>\<open>undefined\<close>, \<^verbatim>\<open>null\<close>, booleans, strings and
  objects (numbers and arrays, which no example converts, give the empty text).
  \<open>odd_tone_body\<close> is a body whose tone has no primitive value.
\<close>

definition pancakes :: recipe where
  "pancakes =
     \<lparr>name = lit ''Simple Pancakes'', titleVariations = None,
      servings = lit ''2'', prepTime = lit ''5'', cookTime = lit ''15'',
      ingredients = [lit ''2 eggs'', lit ''1 cup flour''],
      instructions = [lit ''Mix ingredients'', lit ''Bake until golden'']\<rparr>"

definition demo_recipe :: recipe where
  "demo_recipe = pancakes\<lparr>titleVariations := Some [lit ''Easy Pancakes'']\<rparr>"

definition backtick_recipe :: recipe where
  "backtick_recipe =
     \<lparr>name = lit ''P'', titleVariations = Some [lit ''P''],
      servings = lit ''2'', prepTime = lit ''5'', cookTime = lit ''5'',
      ingredients = [lit ''egg''], instructions = [lit ''```'']\<rparr>"

definition backtick_text :: js_string where
  "backtick_text = lit ''{\"name\":\"P\",\"titleVariations\":[\"P\"],\"servings\":\"2\",\"prepTime\":\"5\",\"cookTime\":\"5\",\"ingredients\":[\"egg\"],\"instructions\":[\"```\"]}''"

definition blank_step_recipe :: recipe where
  "blank_step_recipe = backtick_recipe\<lparr>instructions := [[]]\<rparr>"

definition blank_step_text :: js_string where
  "blank_step_text = lit ''{\"name\":\"P\",\"titleVariations\":[\"P\"],\"servings\":\"2\",\"prepTime\":\"5\",\"cookTime\":\"5\",\"ingredients\":[\"egg\"],\"instructions\":[\"\"]}''"

definition steps_missing_body :: json where
  "steps_missing_body = JObj [(lit ''ingredients'', JStr (lit ''  ''))]"

definition ingredients_missing_body :: json where
  "ingredients_missing_body = JObj [(lit ''steps'', JStr (lit ''mix, bake''))]"

definition steps_number_body :: json where
  "steps_number_body =
     JObj [(lit ''ingredients'', JStr (lit ''2 eggs'')), (lit ''steps'', JNum (Finite 5))]"

definition demo_text :: js_string where
  "demo_text = lit ''{\"name\":\"Simple Pancakes\",\"titleVariations\":[\"Easy Pancakes\"],\"servings\":\"2\",\"prepTime\":\"5\",\"cookTime\":\"15\",\"ingredients\":[\"2 eggs\",\"1 cup flour\"],\"instructions\":[\"Mix ingredients\",\"Bake until golden\"]}''"

fun demo_to_string :: "json option \<Rightarrow> thrown + js_string" where
  "demo_to_string None = Inr (lit ''undefined'')"
| "demo_to_string (Some JNull) = Inr (lit ''null'')"
| "demo_to_string (Some (JBool b)) = Inr (if b then lit ''true'' else lit ''false'')"
| "demo_to_string (Some (JStr s)) = Inr s"
| "demo_to_string (Some (JObj ps)) =
     (if map_of ps (lit ''toString'') = None then Inr (lit ''[object Object]'')
      else Inl (TypeError (ToPrimitive (JObj ps))))"
| "demo_to_string (Some v) = Inr []"

definition demo_platform :: platform where
  "demo_platform =
     \<lparr>JSON_parse = (\<lambda>t. if t = demo_text then Inr (json_of_recipe demo_recipe)
                         else Inl (lit ''Unexpected token'')),
      generateContent = (\<lambda>prompt. Inr (fenced demo_text)),
      type_error_message = (\<lambda>t. lit ''TypeError''),
      to_string = demo_to_string\<rparr>"

definition demo_body :: json where
  "demo_body = JObj [(lit ''ingredients'', JStr (lit ''2 eggs, 1 cup flour'')),
                     (lit ''steps'', JStr (lit ''mix, bake'')),
                     (lit ''tone'', JStr (lit ''concise''))]"

definition odd_tone_body :: json where
  "odd_tone_body = JObj [(lit ''ingredients'', JStr (lit ''2 eggs'')), (lit ''steps'', JStr (lit ''mix'')),
                         (lit ''tone'', JObj [(lit ''toString'', JNum (Finite 1))])]"

definition blank_body :: json where
  "blank_body = JObj [(lit ''ingredients'', JStr (lit ''  '')), (lit ''steps'', JStr (lit ''mix, bake''))]"

definition busy_store :: ip_requests where
  "busy_store = [lit ''10.0.0.7'' \<mapsto> \<lparr>count = 20, timestamp = 0\<rparr>]"

definition failing_platform :: platform where
  "failing_platform = demo_platform\<lparr>generateContent := (\<lambda>prompt. Inr (lit ''Sorry, no recipe.''))\<rparr>"

definition offline_platform :: platform where
  "offline_platform = demo_platform\<lparr>generateContent := (\<lambda>prompt. Inl (Error (lit ''fetch failed'')))\<rparr>"

definition demo_request :: request where
  "demo_request = \<lparr>forwarded_for = Some (lit ''10.0.0.7, 10.0.0.1''), json_body = Inr demo_body\<rparr>"

section \<open>Properties of the rate limiter\<close>

lemma isRateLimited_other_key:
  "ip' \<noteq> ip \<Longrightarrow> snd (isRateLimited now ip' m) ip = m ip"
  by (simp add: isRateLimited_def split: option.splits)

lemma cleanup_within_window:
  "m ip = Some d \<Longrightarrow> now - timestamp d \<le> RATE_LIMIT_WINDOW \<Longrightarrow> cleanup now m ip = Some d"
  by (simp add: cleanup_def)

lemma isRateLimited_opens_window:
  assumes "m ip = None \<or> (\<exists>d. m ip = Some d \<and> RATE_LIMIT_WINDOW < t0 - timestamp d)"
  shows "isRateLimited t0 ip m = (False, m(ip \<mapsto> \<lparr>count = 1, timestamp = t0\<rparr>))"
  using assms by (auto simp: isRateLimited_def)

lemma sequential_requests_in_window:
  assumes "m ip = Some \<lparr>count = c, timestamp = t0\<rparr>"
    and "\<forall>t \<in> set ts. t - t0 \<le> RATE_LIMIT_WINDOW"
    and "c \<le> MAX_REQUESTS_PER_IP"
  shows "fst (sequential_requests ip ts m) = map (\<lambda>k. MAX_REQUESTS_PER_IP \<le> c + k) [0..<length ts]
       \<and> snd (sequential_requests ip ts m) ip
           = Some \<lparr>count = min MAX_REQUESTS_PER_IP (c + length ts), timestamp = t0\<rparr>"
  using assms
proof (induction ts arbitrary: m c)
  case Nil
  then show ?case by simp
next
  case (Cons t ts)
  have inwin: "\<not> RATE_LIMIT_WINDOW < t - t0"
    using Cons.prems(2) by simp
  have shift: "map (\<lambda>k. MAX_REQUESTS_PER_IP \<le> c + k) [0..<Suc (length ts)]
      = (MAX_REQUESTS_PER_IP \<le> c) # map (\<lambda>k. MAX_REQUESTS_PER_IP \<le> Suc c + k) [0..<length ts]"
    by (simp add: upt_conv_Cons map_Suc_upt [symmetric] del: upt_Suc)
  show ?case
  proof (cases "c = MAX_REQUESTS_PER_IP")
    case True
    then have step: "isRateLimited t ip m = (True, m)"
      using Cons.prems(1) inwin by (simp add: isRateLimited_def)
    have ih: "fst (sequential_requests ip ts m) = map (\<lambda>k. MAX_REQUESTS_PER_IP \<le> c + k) [0..<length ts]
        \<and> snd (sequential_requests ip ts m) ip
            = Some \<lparr>count = min MAX_REQUESTS_PER_IP (c + length ts), timestamp = t0\<rparr>"
      using Cons.IH [of m c] Cons.prems by simp
    show ?thesis
      using step ih True by (simp add: split_beta del: upt_Suc) (simp add: upt_conv_Cons map_Suc_upt [symmetric] del: upt_Suc)
  next
    case False
    then have lt: "c < MAX_REQUESTS_PER_IP"
      using Cons.prems(3) by simp
    let ?m' = "m(ip \<mapsto> \<lparr>count = Suc c, timestamp = t0\<rparr>)"
    have step: "isRateLimited t ip m = (False, ?m')"
      using Cons.prems(1) inwin lt by (simp add: isRateLimited_def)
    have ih: "fst (sequential_requests ip ts ?m') = map (\<lambda>k. MAX_REQUESTS_PER_IP \<le> Suc c + k) [0..<length ts]
        \<and> snd (sequential_requests ip ts ?m') ip
            = Some \<lparr>count = min MAX_REQUESTS_PER_IP (Suc c + length ts), timestamp = t0\<rparr>"
    proof (rule Cons.IH)
      show "?m' ip = Some \<lparr>count = Suc c, timestamp = t0\<rparr>" by simp
      show "\<forall>t \<in> set ts. t - t0 \<le> RATE_LIMIT_WINDOW" using Cons.prems(2) by simp
      show "Suc c \<le> MAX_REQUESTS_PER_IP" using lt by simp
    qed
    show ?thesis
      using step ih lt shift by (simp add: split_beta del: upt_Suc)
  qed
qed

section \<open>The claims about the rate limiter\<close>

text \<open>
  Claim C1. A request that finds no entry for its key, or an entry older than the window,
  opens a window at its time \<open>t0\<close>. Of the requests the key then makes while the window
  lasts (none later than one hour after \<open>t0\<close>), the first twenty, the opening one
  included, are allowed and every later one is denied: request number \<open>k + 1\<close> is denied
  exactly when \<open>20 \<le> k\<close>, so the 20th is allowed and the 21st denied. Once more than one
  hour has passed since \<open>t0\<close>, the next request is allowed and leaves the entry at
  count 1 with the new time as window start.
\<close>

theorem rate_limiter_window:
  assumes "m ip = None \<or> (\<exists>d. m ip = Some d \<and> RATE_LIMIT_WINDOW < t0 - timestamp d)"
    and "\<forall>t \<in> set ts. t - t0 \<le> RATE_LIMIT_WINDOW"
  shows "fst (sequential_requests ip (t0 # ts) m) = map (\<lambda>k. 20 \<le> k) [0..<Suc (length ts)]
       \<and> (\<forall>now. RATE_LIMIT_WINDOW < now - t0 \<longrightarrow>
            isRateLimited now ip (snd (sequential_requests ip (t0 # ts) m))
              = (False, (snd (sequential_requests ip (t0 # ts) m))(ip \<mapsto> \<lparr>count = 1, timestamp = now\<rparr>)))"
proof -
  let ?m1 = "m(ip \<mapsto> \<lparr>count = 1, timestamp = t0\<rparr>)"
  have first: "isRateLimited t0 ip m = (False, ?m1)"
    using assms(1) by (rule isRateLimited_opens_window)
  have rest: "fst (sequential_requests ip ts ?m1) = map (\<lambda>k. MAX_REQUESTS_PER_IP \<le> 1 + k) [0..<length ts]
      \<and> snd (sequential_requests ip ts ?m1) ip
          = Some \<lparr>count = min MAX_REQUESTS_PER_IP (1 + length ts), timestamp = t0\<rparr>"
    using sequential_requests_in_window [of ?m1 ip 1 t0 ts] assms(2)
    by (simp add: MAX_REQUESTS_PER_IP_def)
  have verdicts: "fst (sequential_requests ip (t0 # ts) m) = map (\<lambda>k. 20 \<le> k) [0..<Suc (length ts)]"
    using first rest
    by (simp add: split_beta MAX_REQUESTS_PER_IP_def upt_conv_Cons map_Suc_upt [symmetric] del: upt_Suc)
  have final: "snd (sequential_requests ip (t0 # ts) m) ip
      = Some \<lparr>count = min MAX_REQUESTS_PER_IP (1 + length ts), timestamp = t0\<rparr>"
    using first rest by (simp add: split_beta)
  have reset: "isRateLimited now ip (snd (sequential_requests ip (t0 # ts) m))
      = (False, (snd (sequential_requests ip (t0 # ts) m))(ip \<mapsto> \<lparr>count = 1, timestamp = now\<rparr>))"
    if "RATE_LIMIT_WINDOW < now - t0" for now
    using that final by (intro isRateLimited_opens_window) simp
  show ?thesis
    using verdicts reset by blast
qed

theorem rate_limiter_window_witness:
  "fst (sequential_requests (lit ''10.0.0.7'') (0 # replicate 20 1000) Map.empty)
     = replicate 20 False @ [True]
   \<and> fst (isRateLimited 3600001 (lit ''10.0.0.7'')
        (snd (sequential_requests (lit ''10.0.0.7'') (0 # replicate 20 1000) Map.empty))) = False"
proof -
  have "\<forall>t \<in> set (replicate 20 (1000::int)). t - 0 \<le> RATE_LIMIT_WINDOW"
    by (simp add: RATE_LIMIT_WINDOW_def)
  then have "fst (sequential_requests (lit ''10.0.0.7'') (0 # replicate 20 1000) Map.empty)
       = map (\<lambda>k. 20 \<le> k) [0..<Suc (length (replicate 20 (1000::int)))]
     \<and> (\<forall>now. RATE_LIMIT_WINDOW < now - 0 \<longrightarrow>
          isRateLimited now (lit ''10.0.0.7'')
            (snd (sequential_requests (lit ''10.0.0.7'') (0 # replicate 20 1000) Map.empty))
          = (False, (snd (sequential_requests (lit ''10.0.0.7'') (0 # replicate 20 1000) Map.empty))
              (lit ''10.0.0.7'' \<mapsto> \<lparr>count = 1, timestamp = now\<rparr>)))"
    by (intro rate_limiter_window) simp
  moreover have "map (\<lambda>k::nat. 20 \<le> k) [0..<Suc (length (replicate 20 (1000::int)))]
      = replicate 20 False @ [True]"
    by code_simp
  moreover have "RATE_LIMIT_WINDOW < 3600001 - 0"
    by (simp add: RATE_LIMIT_WINDOW_def)
  ultimately show ?thesis
    by simp
qed

text \<open>
  Claim C8. The limiter denies exactly when the key has an entry that is still inside its
  window and whose count has reached 20, and a denied call returns the map it was given:
  neither the count nor the window start of any entry changes.
\<close>

theorem rate_limiter_deny_no_mutation:
  "(fst (isRateLimited now ip m) \<longleftrightarrow>
      (\<exists>d. m ip = Some d \<and> now - timestamp d \<le> RATE_LIMIT_WINDOW \<and> 20 \<le> count d))
   \<and> (fst (isRateLimited now ip m) \<longrightarrow> snd (isRateLimited now ip m) = m)"
  by (auto simp: isRateLimited_def MAX_REQUESTS_PER_IP_def split: option.splits)

theorem rate_limiter_deny_no_mutation_witness:
  "fst (isRateLimited 5000 (lit ''10.0.0.7'')
          [lit ''10.0.0.7'' \<mapsto> \<lparr>count = 20, timestamp = 1000\<rparr>])
   \<and> snd (isRateLimited 5000 (lit ''10.0.0.7'')
          [lit ''10.0.0.7'' \<mapsto> \<lparr>count = 20, timestamp = 1000\<rparr>])
       = [lit ''10.0.0.7'' \<mapsto> \<lparr>count = 20, timestamp = 1000\<rparr>]"
proof -
  have "fst (isRateLimited 5000 (lit ''10.0.0.7'')
          [lit ''10.0.0.7'' \<mapsto> \<lparr>count = 20, timestamp = 1000\<rparr>])"
    by (simp add: isRateLimited_def MAX_REQUESTS_PER_IP_def RATE_LIMIT_WINDOW_def)
  then show ?thesis
    using rate_limiter_deny_no_mutation
      [of 5000 "lit ''10.0.0.7''" "[lit ''10.0.0.7'' \<mapsto> \<lparr>count = 20, timestamp = 1000\<rparr>]"]
    by blast
qed

section \<open>Properties of the sanitizer\<close>

lemma trim_end_Cons:
  "trim_end (c # s) = (if is_space c \<and> list_all is_space s then [] else c # trim_end s)"
  by (auto simp: trim_end_def dropWhile_append list_all_iff)

lemma trim_end_Nil [simp]: "trim_end [] = []"
  by (simp add: trim_end_def)

lemma trim_end_all_space: "list_all is_space s \<Longrightarrow> trim_end s = []"
  by (simp add: trim_end_def list_all_iff)

lemma list_all_clean_end: "list_all is_space (clean_end s) = list_all is_space s"
  by (induction s) (auto simp: is_space_def)

lemma trim_end_clean_end: "trim_end (clean_end s) = trim_end s"
  by (induction s) (auto simp: trim_end_Cons list_all_clean_end trim_end_all_space is_space_def)

lemma trim_start_clean_end: "trim_start (clean_end s) = clean_end (trim_start s)"
  by (induction s) (auto simp: trim_start_def is_space_def)

lemma trim_clean_end: "trim (clean_end s) = trim s"
  by (simp add: trim_def trim_start_clean_end trim_end_clean_end)

lemma trim_clean_start: "trim (clean_start s) = trim s"
proof (cases "dropWhile is_space s")
  case Nil
  show ?thesis unfolding clean_start_def Nil by simp
next
  case (Cons c cs)
  show ?thesis
  proof (cases "c = 0x7B")
    case True
    have "clean_start s = dropWhile is_space s"
      unfolding clean_start_def Cons using True by simp
    then show ?thesis
      by (simp add: trim_def trim_start_def)
  next
    case False
    show ?thesis unfolding clean_start_def Cons using False by simp
  qed
qed

lemma clean_eq: "clean s = trim (strip_fences s)"
  by (simp add: clean_def trim_clean_end trim_clean_start)

lemma trim_start_trim_end_head:
  "\<not> is_space c \<Longrightarrow> trim_start (trim_end (c # s)) = trim_end (c # s)"
  by (simp add: trim_end_Cons trim_start_def)

lemma trim_end_idem: "trim_end (trim_end s) = trim_end s"
  by (simp add: trim_end_def)

lemma trim_idem: "trim (trim s) = trim s"
proof (cases "trim_start s")
  case Nil
  have "trim s = []"
    unfolding trim_def Nil by simp
  then show ?thesis
    by (simp add: trim_def trim_start_def)
next
  case (Cons c cs)
  then have "\<not> is_space c"
    unfolding trim_start_def by (metis hd_dropWhile list.sel(1) list.distinct(1))
  then show ?thesis
    using Cons by (simp add: trim_def trim_start_trim_end_head trim_end_idem)
qed

lemma trim_no_outer_space:
  assumes "s \<noteq> []" and "\<not> is_space (hd s)" and "\<not> is_space (last s)"
  shows "trim s = s"
proof -
  have "trim_start s = s"
    using assms(1,2) by (cases s) (simp_all add: trim_start_def)
  moreover have "dropWhile is_space (rev s) = rev s"
    using assms(1,3) by (cases "rev s") (simp_all add: last_rev [symmetric] hd_rev)
  ultimately show ?thesis
    by (simp add: trim_def trim_end_def)
qed

lemma trim_empty_iff: "trim s = [] \<longleftrightarrow> list_all is_space s"
proof (cases "dropWhile is_space s")
  case Nil
  then have "list_all is_space s"
    by (simp add: list_all_iff)
  moreover have "trim s = []"
    unfolding trim_def trim_start_def Nil by simp
  ultimately show ?thesis by simp
next
  case (Cons c cs)
  then have "\<not> is_space c"
    by (metis hd_dropWhile list.sel(1) list.distinct(1))
  then have "trim s \<noteq> []"
    unfolding trim_def trim_start_def Cons by (simp add: trim_end_Cons)
  moreover have "\<not> list_all is_space s"
  proof
    assume "list_all is_space s"
    then have "dropWhile is_space s = []"
      by (simp add: list_all_iff)
    then show False using Cons by simp
  qed
  ultimately show ?thesis by simp
qed

lemma trim_end_append:
  assumes "p \<noteq> []" and "\<not> is_space (last p)"
  shows "trim_end (p @ r) = p @ trim_end r"
proof -
  have "dropWhile is_space (rev p) = rev p"
    using assms by (cases "rev p") (simp_all add: last_rev [symmetric] hd_rev)
  then show ?thesis
    by (simp add: trim_end_def dropWhile_append)
qed

lemma length_trim: "length (trim s) \<le> length s"
proof -
  have "length (trim s) \<le> length (trim_start s)"
    unfolding trim_def trim_end_def
    by (metis length_dropWhile_le length_rev)
  also have "\<dots> \<le> length s"
    unfolding trim_start_def by (rule length_dropWhile_le)
  finally show ?thesis .
qed

lemma starts_with_split: "starts_with p s \<Longrightarrow> \<exists>r. s = p @ r"
  unfolding starts_with_def by (metis append_take_drop_id)

lemma starts_with_append:
  assumes "starts_with (a @ b) s"
  shows "starts_with a s \<and> starts_with b (drop (length a) s)"
proof -
  have "take (length (a @ b)) s @ drop (length (a @ b)) s = s"
    by (rule append_take_drop_id)
  moreover have "take (length (a @ b)) s = a @ b"
    using assms by (simp only: starts_with_def)
  ultimately have "s = (a @ b) @ drop (length (a @ b)) s"
    by (simp only:)
  then obtain r where "s = a @ b @ r"
    by (metis append_assoc)
  then show ?thesis
    by (simp add: starts_with_def)
qed

lemma starts_with_append_right:
  assumes "starts_with p xs"
  shows "starts_with p (xs @ ys)"
proof -
  have "length (take (length p) xs) = length p"
    using assms by (simp add: starts_with_def)
  then have "length p \<le> length xs"
    by simp
  then show ?thesis
    using assms by (simp add: starts_with_def)
qed

lemma starts_with_append_cases:
  assumes "starts_with p (xs @ t)"
  shows "starts_with p xs \<or> set xs \<subseteq> set p"
proof (cases "length p \<le> length xs")
  case True
  then show ?thesis using assms by (simp add: starts_with_def)
next
  case False
  then have "p = xs @ take (length p - length xs) t"
    using assms by (simp add: starts_with_def)
  then have "set xs \<subseteq> set p"
    by (metis set_append Un_upper1)
  then show ?thesis ..
qed

lemma starts_with_append_sep:
  assumes "starts_with p (xs @ q # t)"
  shows "starts_with p xs \<or> q \<in> set p"
proof (cases "length p \<le> length xs")
  case True
  then show ?thesis using assms by (simp add: starts_with_def)
next
  case False
  then obtain k where k: "length p - length xs = Suc k"
    by (cases "length p - length xs") auto
  have "p = xs @ take (length p - length xs) (q # t)"
    using assms False by (simp add: starts_with_def)
  then have "p = xs @ q # take k t"
    by (simp add: k)
  then have "q \<in> set p"
    by (metis in_set_conv_decomp)
  then show ?thesis ..
qed

lemma starts_with_backticks_head: "starts_with (lit ''```'') (c # xs) \<Longrightarrow> c = 0x60"
  by (cases xs) (auto simp: starts_with_def lit_def)

lemma has_fence_starts: "starts_with (lit ''```'') s \<Longrightarrow> has_fence s"
  by (cases s) (auto simp: starts_with_def lit_def)

lemma has_fence_drop: "has_fence (drop n s) \<Longrightarrow> has_fence s"
proof (induction s arbitrary: n)
  case Nil
  then show ?case by simp
next
  case (Cons c cs)
  then show ?case by (cases n) auto
qed

lemma has_fence_append_left: "has_fence xs \<Longrightarrow> has_fence (xs @ ys)"
proof (induction xs)
  case Nil
  then show ?case by simp
next
  case (Cons c cs)
  then show ?case
    using starts_with_append_right [of "lit ''```''" "c # cs" ys] by auto
qed

lemma has_fence_append_right: "has_fence ys \<Longrightarrow> has_fence (xs @ ys)"
  using has_fence_drop [of "length xs" "xs @ ys"] by simp

lemma has_fence_Cons_other: "c \<noteq> 0x60 \<Longrightarrow> has_fence (c # xs) = has_fence xs"
  using starts_with_backticks_head by auto

lemma has_fence_append_sep:
  assumes "q \<noteq> 0x60"
  shows "has_fence (x @ q # y) \<longleftrightarrow> has_fence x \<or> has_fence y"
proof (induction x)
  case Nil
  show ?case using assms by (simp add: has_fence_Cons_other del: has_fence.simps(2))
next
  case (Cons c x)
  have "starts_with (lit ''```'') ((c # x) @ q # y) \<longleftrightarrow> starts_with (lit ''```'') (c # x)"
  proof
    assume "starts_with (lit ''```'') ((c # x) @ q # y)"
    then have "starts_with (lit ''```'') (c # x) \<or> q \<in> set (lit ''```'')"
      by (rule starts_with_append_sep)
    then show "starts_with (lit ''```'') (c # x)"
      using assms by (auto simp: lit_def)
  next
    assume "starts_with (lit ''```'') (c # x)"
    then show "starts_with (lit ''```'') ((c # x) @ q # y)"
      by (rule starts_with_append_right)
  qed
  then show ?case
    using Cons.IH by auto
qed

lemma no_backtick_no_fence: "0x60 \<notin> set x \<Longrightarrow> \<not> has_fence x"
  by (induction x) (simp_all add: has_fence_Cons_other del: has_fence.simps(2))

lemma has_fence_append_plain:
  assumes "x \<noteq> []" and "0x60 \<notin> set x"
  shows "has_fence (x @ y) = has_fence y"
proof -
  obtain x' q where x: "x = x' @ [q]"
    using assms(1) by (metis rev_exhaust)
  then have "q \<noteq> 0x60" "0x60 \<notin> set x'"
    using assms(2) by auto
  then show ?thesis
    using has_fence_append_sep [of q x' y] no_backtick_no_fence [of x'] by (simp add: x)
qed

lemma fence_match_no_fence:
  assumes "\<not> has_fence s"
  shows "fence_match s = None"
proof -
  have a: "\<not> starts_with (lit ''```'') s"
    using assms has_fence_starts by blast
  have "\<not> starts_with (lit ''```'') (drop (length [LF]) s)"
    using assms has_fence_starts has_fence_drop by blast
  then have "\<not> starts_with ([LF] @ lit ''```'') s"
    using starts_with_append [of "[LF]" "lit ''```''" s] by blast
  then have b: "\<not> starts_with (LF # lit ''```'') s"
    by simp
  have "lit ''```json'' = lit ''```'' @ lit ''json''"
    by (simp add: lit_def)
  then have c: "\<not> starts_with (lit ''```json'') s"
    using a starts_with_append [of "lit ''```''" "lit ''json''" s] by auto
  show ?thesis
    using a b c by (simp add: fence_match_def)
qed

lemma no_fence_starts:
  assumes "\<not> has_fence s"
  shows "\<not> starts_with (lit ''```json'') s" "\<not> starts_with (LF # lit ''```'') s"
    "\<not> starts_with (lit ''```'') s"
  using fence_match_no_fence [OF assms]
  by (auto simp: fence_match_def split: if_splits)

lemma fence_match_positive: "fence_match s = Some n \<Longrightarrow> 0 < n"
  by (auto simp: fence_match_def split: if_splits)

lemma fence_match_before_other:
  assumes "\<not> has_fence xs" and "q \<in> set xs" and "q \<notin> set (LF # lit ''```json'')"
  shows "fence_match (xs @ t) = None"
proof -
  have "\<not> starts_with p (xs @ t)" if "\<not> starts_with p xs" and "q \<notin> set p" for p
    using starts_with_append_cases [of p xs t] that assms(2) by blast
  moreover have "q \<notin> set (lit ''```json'')" "q \<notin> set (LF # lit ''```'')" "q \<notin> set (lit ''```'')"
    using assms(3) by (auto simp: lit_def)
  ultimately show ?thesis
    using no_fence_starts [OF assms(1)] by (simp add: fence_match_def)
qed

lemma strip_fences_no_fence: "\<not> has_fence s \<Longrightarrow> strip_fences s = s"
  by (induction s) (simp_all add: fence_match_no_fence del: has_fence.simps, auto)

lemma length_strip_fences: "length (strip_fences s) \<le> length s"
proof (induction s rule: strip_fences.induct)
  case 1
  then show ?case by simp
next
  case (2 c cs)
  show ?case
  proof (cases "fence_match (c # cs)")
    case None
    then show ?thesis using 2 by simp
  next
    case (Some n)
    then have "length (strip_fences (drop n (c # cs))) \<le> length (drop n (c # cs))"
      using 2 by simp
    then show ?thesis using Some by simp
  qed
qed

lemma strip_fences_shrinks: "has_fence s \<Longrightarrow> length (strip_fences s) < length s"
proof (induction s rule: strip_fences.induct)
  case 1
  then show ?case by simp
next
  case (2 c cs)
  show ?case
  proof (cases "fence_match (c # cs)")
    case None
    then have "\<not> starts_with (lit ''```'') (c # cs)"
      by (auto simp: fence_match_def split: if_splits)
    then have "has_fence cs"
      using "2.prems" by simp
    then show ?thesis
      using None "2.IH"(1) by simp
  next
    case (Some n)
    have "length (strip_fences (drop n (c # cs))) \<le> length (drop n (c # cs))"
      by (rule length_strip_fences)
    also have "\<dots> < length (c # cs)"
      using fence_match_positive [OF Some] by simp
    finally show ?thesis
      using Some by simp
  qed
qed

lemma strip_fences_append:
  assumes "\<not> has_fence a" and "a \<noteq> []" and "last a \<notin> set (LF # lit ''```json'')"
  shows "strip_fences (a @ t) = a @ strip_fences t"
  using assms
proof (induction a)
  case Nil
  then show ?case by simp
next
  case (Cons c cs)
  have "last (c # cs) \<in> set (c # cs)"
    by (rule last_in_set) simp
  then have none: "fence_match ((c # cs) @ t) = None"
    using Cons.prems(1,3) fence_match_before_other by blast
  show ?case
  proof (cases "cs = []")
    case True
    then show ?thesis using none by simp
  next
    case False
    then have "strip_fences (cs @ t) = cs @ strip_fences t"
      using Cons.IH Cons.prems by simp
    then show ?thesis
      using none by simp
  qed
qed

lemma strip_fences_closing:
  assumes "\<not> has_fence s" and "s \<noteq> []" and "last s = 0x7D"
  shows "strip_fences (s @ LF # lit ''```'') = s"
proof -
  have "last s \<notin> set (LF # lit ''```json'')"
    using assms(3) by (simp add: lit_def LF_def)
  then have "strip_fences (s @ LF # lit ''```'') = s @ strip_fences (LF # lit ''```'')"
    using assms(1,2) by (intro strip_fences_append)
  moreover have "strip_fences (LF # lit ''```'') = []"
    by (simp add: lit_def LF_def fence_match_def starts_with_def)
  ultimately show ?thesis
    by simp
qed

lemma strip_fences_fenced:
  assumes "\<not> has_fence s" and "s \<noteq> []" and "last s = 0x7D"
  shows "strip_fences (fenced s) = s"
proof -
  have "strip_fences (fenced s) = strip_fences (s @ LF # lit ''```'')"
    by (simp add: fenced_def lit_def fence_match_def starts_with_def)
  then show ?thesis
    using strip_fences_closing [OF assms] by simp
qed

lemma has_fence_trim_start: "has_fence (trim_start s) \<Longrightarrow> has_fence s"
  unfolding trim_start_def
  by (metis has_fence_append_right takeWhile_dropWhile_id)

lemma has_fence_trim_end: "has_fence (trim_end s) \<Longrightarrow> has_fence s"
proof -
  have "s = trim_end s @ rev (takeWhile is_space (rev s))"
    unfolding trim_end_def
    by (metis rev_append rev_rev_ident takeWhile_dropWhile_id)
  then show "has_fence (trim_end s) \<Longrightarrow> has_fence s"
    by (metis has_fence_append_left)
qed

lemma has_fence_trim: "has_fence (trim s) \<Longrightarrow> has_fence s"
  unfolding trim_def using has_fence_trim_end has_fence_trim_start by blast

lemma has_fence_not_all_space: "has_fence s \<Longrightarrow> \<not> list_all is_space s"
  by (induction s) (auto simp: starts_with_def lit_def is_space_def)

lemma trim_start_has_fence: "has_fence s \<Longrightarrow> has_fence (trim_start s)"
  by (induction s) (auto simp: trim_start_def starts_with_def lit_def is_space_def)

lemma trim_end_has_fence: "has_fence s \<Longrightarrow> has_fence (trim_end s)"
proof (induction s)
  case Nil
  then show ?case by simp
next
  case (Cons c cs)
  show ?case
  proof (cases "starts_with (lit ''```'') (c # cs)")
    case True
    then obtain r where r: "c # cs = lit ''```'' @ r"
      using starts_with_split by blast
    have "trim_end (lit ''```'' @ r) = lit ''```'' @ trim_end r"
      by (rule trim_end_append) (simp_all add: lit_def is_space_def)
    then have "starts_with (lit ''```'') (trim_end (c # cs))"
      using r by (simp add: starts_with_def)
    then show ?thesis
      by (rule has_fence_starts)
  next
    case False
    then have hf: "has_fence cs"
      using Cons.prems by simp
    then have "\<not> list_all is_space cs"
      by (rule has_fence_not_all_space)
    then show ?thesis
      using Cons.IH [OF hf] by (simp add: trim_end_Cons)
  qed
qed

lemma trim_has_fence: "has_fence (trim s) \<longleftrightarrow> has_fence s"
  using has_fence_trim trim_start_has_fence trim_end_has_fence unfolding trim_def by blast

lemma clean_fenced:
  assumes "\<not> has_fence s" and "s \<noteq> []" and "hd s = 0x7B" and "last s = 0x7D"
  shows "clean (fenced s) = s"
proof -
  have "\<not> is_space (hd s)" "\<not> is_space (last s)"
    using assms(3,4) by (simp_all add: is_space_def)
  then show ?thesis
    using assms by (simp add: clean_eq strip_fences_fenced trim_no_outer_space)
qed

lemmas sanitizer_eval = clean_def lit_def LF_def fence_match_def starts_with_def clean_start_def
  trim_def trim_end_def trim_start_def is_space_def

lemma backtick_text_clean: "clean (fenced backtick_text) = blank_step_text"
proof -
  let ?pre = "lit ''{\"name\":\"P\",\"titleVariations\":[\"P\"],\"servings\":\"2\",\"prepTime\":\"5\",\"cookTime\":\"5\",\"ingredients\":[\"egg\"],\"instructions\":[\"''"
  let ?post = "lit ''\"]}''"
  have split: "backtick_text = ?pre @ lit ''```'' @ ?post"
    by (simp add: backtick_text_def lit_def)
  have joined: "blank_step_text = ?pre @ ?post"
    by (simp add: blank_step_text_def lit_def)
  have pre: "\<not> has_fence ?pre" "?pre \<noteq> []" "last ?pre \<notin> set (LF # lit ''```json'')"
    by (simp_all add: lit_def starts_with_def LF_def)
  have post: "\<not> has_fence ?post" "?post \<noteq> []" "last ?post = 0x7D"
    by (simp_all add: lit_def starts_with_def)
  have "strip_fences (fenced backtick_text) = strip_fences (backtick_text @ LF # lit ''```'')"
    by (simp add: fenced_def lit_def fence_match_def starts_with_def)
  also have "\<dots> = strip_fences (?pre @ (lit ''```'' @ ?post @ LF # lit ''```''))"
    by (simp only: split append_assoc)
  also have "\<dots> = ?pre @ strip_fences (lit ''```'' @ ?post @ LF # lit ''```'')"
    using pre by (rule strip_fences_append)
  also have "strip_fences (lit ''```'' @ ?post @ LF # lit ''```'') = strip_fences (?post @ LF # lit ''```'')"
    by (simp add: lit_def fence_match_def starts_with_def LF_def)
  also have "strip_fences (?post @ LF # lit ''```'') = ?post"
    using post by (rule strip_fences_closing)
  finally have "strip_fences (fenced backtick_text) = blank_step_text"
    by (simp only: joined)
  moreover have "trim blank_step_text = blank_step_text"
    by (rule trim_no_outer_space) (simp_all add: blank_step_text_def lit_def is_space_def)
  ultimately show ?thesis
    by (simp add: clean_eq)
qed

lemma blank_step_text_clean: "clean (fenced blank_step_text) = blank_step_text"
  by (rule clean_fenced) (simp_all add: blank_step_text_def lit_def starts_with_def)

section \<open>The claims about input validation and the sanitizer\<close>

text \<open>
  The two checks of \<open>validateInput\<close> are ordered: a pair with a blank field whose
  lengths add up to more than 30000 gets the empty-input message.
\<close>

lemma validateInput_blank_and_long:
  "30000 < length (lit ''  '') + length (replicate 30000 (0x61 :: code_unit))
   \<and> validateInput (lit ''  '') (replicate 30000 0x61)
       = Some (lit ''Ingredients and steps are required.'')"
proof -
  have "trim (lit ''  '') = []"
    by (simp add: trim_empty_iff lit_def is_space_def)
  then have "validateInput (lit ''  '') (replicate 30000 0x61)
      = Some (lit ''Ingredients and steps are required.'')"
    by (simp add: validateInput_def)
  then show ?thesis
    by (simp add: lit_def)
qed

text \<open>
  Claim C5. \<open>validateInput\<close> accepts a pair of strings exactly when both are non-empty
  after trimming and their lengths add up to at most 30000. It answers with the
  empty-input message exactly when one of them is empty or white space only
  (\<open>trim_empty_iff\<close>), and otherwise with the too-large message exactly when the lengths
  add up to more than 30000: of the two rejections, the empty-input one is checked first.
\<close>

theorem validateInput_accepts_iff:
  "(validateInput i s = None \<longleftrightarrow>
      trim i \<noteq> [] \<and> trim s \<noteq> [] \<and> length i + length s \<le> 30000)
   \<and> (validateInput i s = Some (lit ''Ingredients and steps are required.'') \<longleftrightarrow>
      trim i = [] \<or> trim s = [])
   \<and> (validateInput i s
        = Some (lit ''Input is too long. Please reduce the length of ingredients or steps.'') \<longleftrightarrow>
      trim i \<noteq> [] \<and> trim s \<noteq> [] \<and> 30000 < length i + length s)"
proof -
  have "lit ''Ingredients and steps are required.''
      \<noteq> lit ''Input is too long. Please reduce the length of ingredients or steps.''"
    by (simp add: lit_def)
  then show ?thesis
    by (auto simp: validateInput_def MAX_TOKENS_def Let_def)
qed

theorem validateInput_accepts_iff_witness:
  "validateInput (lit ''2 eggs, 1 cup flour'') (lit ''mix, bake'') = None
   \<and> validateInput (lit ''  '') (lit ''mix, bake'') = Some (lit ''Ingredients and steps are required.'')
   \<and> validateInput (replicate 30000 0x61) (lit ''x'')
        = Some (lit ''Input is too long. Please reduce the length of ingredients or steps.'')"
proof -
  have t1: "trim (lit ''2 eggs, 1 cup flour'') \<noteq> []" and t2: "trim (lit ''mix, bake'') \<noteq> []"
    and t3: "trim (lit ''  '') = []" and t4: "trim (lit ''x'') \<noteq> []"
    by (simp_all add: trim_empty_iff lit_def is_space_def)
  have "trim (replicate 30000 (0x61 :: code_unit)) = replicate 30000 0x61"
    by (rule trim_no_outer_space) (simp_all add: is_space_def)
  then have t5: "trim (replicate 30000 (0x61 :: code_unit)) \<noteq> []"
    by simp
  have l1: "length (lit ''2 eggs, 1 cup flour'') + length (lit ''mix, bake'') \<le> 30000"
    and l2: "30000 < length (replicate 30000 (0x61 :: code_unit)) + length (lit ''x'')"
    by (simp_all add: lit_def)
  show ?thesis
    using validateInput_accepts_iff [of "lit ''2 eggs, 1 cup flour''" "lit ''mix, bake''"]
      validateInput_accepts_iff [of "lit ''  ''" "lit ''mix, bake''"]
      validateInput_accepts_iff [of "replicate 30000 0x61" "lit ''x''"]
      t1 t2 t3 t4 t5 l1 l2
    by blast
qed

text \<open>
  Claim C6, as stated, fails. In the text of two backticks, a line feed and four
  backticks the scan finds one fence delimiter (the line feed and the three backticks behind
  it); removing it joins the backticks around it into a new fence, which a second run
  removes. The same happens with a pair of delimiters: a line that ends in two backticks,
  followed by a block between two fences of four backticks.
\<close>

theorem clean_idempotent_counterexample:
  "fence_count (lit ''``'' @ [LF] @ lit ''````'') = 1
   \<and> clean (lit ''``'' @ [LF] @ lit ''````'') = lit ''```''
   \<and> clean (clean (lit ''``'' @ [LF] @ lit ''````'')) = []
   \<and> clean (clean (lit ''``'' @ [LF] @ lit ''````'')) \<noteq> clean (lit ''``'' @ [LF] @ lit ''````'')
   \<and> fence_count (lit ''``'' @ [LF] @ lit ''````json'' @ [LF] @ lit ''{}'' @ [LF] @ lit ''````'') = 2
   \<and> clean (lit ''``'' @ [LF] @ lit ''````json'' @ [LF] @ lit ''{}'' @ [LF] @ lit ''````'')
       = lit ''```json'' @ [LF] @ lit ''{}`''
   \<and> clean (clean (lit ''``'' @ [LF] @ lit ''````json'' @ [LF] @ lit ''{}'' @ [LF] @ lit ''````''))
       = lit ''{}`''"
proof -
  have a: "clean (lit ''``'' @ [LF] @ lit ''````'') = lit ''```''"
    by (simp add: sanitizer_eval)
  have b: "clean (lit ''```'') = []"
    by (simp add: sanitizer_eval)
  have c: "fence_count (lit ''``'' @ [LF] @ lit ''````'') = 1"
    by (simp add: sanitizer_eval)
  have d: "clean (lit ''``'' @ [LF] @ lit ''````json'' @ [LF] @ lit ''{}'' @ [LF] @ lit ''````'')
      = lit ''```json'' @ [LF] @ lit ''{}`''"
    by (simp add: sanitizer_eval)
  have e: "clean (lit ''```json'' @ [LF] @ lit ''{}`'') = lit ''{}`''"
    by (simp add: sanitizer_eval)
  have f: "fence_count (lit ''``'' @ [LF] @ lit ''````json'' @ [LF] @ lit ''{}'' @ [LF] @ lit ''````'') = 2"
    by (simp add: sanitizer_eval)
  show ?thesis
    unfolding a b c d e f by (simp add: lit_def)
qed

text \<open>
  Claim C6, amended. Cleaning twice gives the same text as cleaning once exactly
  when the text left by the removal of the fence delimiters has no fence, that is, no three
  backticks in a row; so it does whenever the backticks of the text all belong to the
  delimiters that are removed.
\<close>

theorem clean_idempotent_iff:
  "clean (clean x) = clean x \<longleftrightarrow> \<not> has_fence (strip_fences x)"
proof
  assume idem: "clean (clean x) = clean x"
  show "\<not> has_fence (strip_fences x)"
  proof
    assume "has_fence (strip_fences x)"
    then have "has_fence (clean x)"
      by (simp add: clean_eq trim_has_fence)
    then have "length (strip_fences (clean x)) < length (clean x)"
      by (rule strip_fences_shrinks)
    moreover have "length (trim (strip_fences (clean x))) \<le> length (strip_fences (clean x))"
      by (rule length_trim)
    ultimately have "length (clean (clean x)) < length (clean x)"
      by (simp add: clean_eq [of "clean x"])
    then show False
      using idem by simp
  qed
next
  assume "\<not> has_fence (strip_fences x)"
  then have "\<not> has_fence (clean x)"
    by (simp add: clean_eq trim_has_fence)
  then have "strip_fences (clean x) = clean x"
    by (rule strip_fences_no_fence)
  then have "clean (clean x) = trim (clean x)"
    by (simp add: clean_eq [of "clean x"])
  then show "clean (clean x) = clean x"
    by (simp add: clean_eq [of x] trim_idem)
qed

theorem clean_idempotent_iff_witness:
  "\<not> has_fence (strip_fences (fenced (lit ''{}'')))
   \<and> clean (clean (fenced (lit ''{}''))) = clean (fenced (lit ''{}''))"
proof -
  have "strip_fences (fenced (lit ''{}'')) = lit ''{}''"
    by (simp add: fenced_def sanitizer_eval)
  then have "\<not> has_fence (strip_fences (fenced (lit ''{}'')))"
    by (simp add: lit_def starts_with_def)
  then show ?thesis
    using clean_idempotent_iff [of "fenced (lit ''{}'')"] by simp
qed

section \<open>Properties of the recipe checks\<close>

lemmas json_eval = lit_def requiredFields_def missingFields_def recipe_checks_def not_js_def

lemma parse_recipe_parsed:
  "JSON_parse pf (clean text) = Inr v \<Longrightarrow> parse_recipe pf text = recipe_checks v"
  by (simp add: parse_recipe_def)

lemma missingFields_nonempty_error:
  assumes "missingFields recipe \<noteq> []" and "recipe \<noteq> JNull"
  shows "recipe_checks recipe
    = Inl (Error (lit ''Missing required fields: '' @ join (lit '', '') (missingFields recipe)))"
  using assms by (simp add: recipe_checks_def)

lemma recipe_checks_returns_argument: "recipe_checks v = Inr w \<Longrightarrow> w = v"
  by (auto simp: recipe_checks_def split: if_splits)

lemma parse_recipe_message:
  "parse_recipe pf text = Inl error \<Longrightarrow> \<exists>d. message pf error = Some d"
  by (auto simp: parse_recipe_def recipe_checks_def Let_def split: sum.splits if_splits)

lemma parse_recipe_checked:
  assumes "parse_recipe pf reply = Inr v"
  shows "recipe_checks v = Inr v"
proof -
  obtain w where "JSON_parse pf (clean reply) = Inr w" and "recipe_checks w = Inr v"
    using assms by (auto simp: parse_recipe_def Let_def split: sum.splits)
  then show ?thesis
    using recipe_checks_returns_argument by blast
qed

lemma recipe_checks_json_of_recipe:
  assumes "name r \<noteq> []" and "titleVariations r = Some tv" and "tv \<noteq> []"
    and "servings r \<noteq> []" and "prepTime r \<noteq> []" and "cookTime r \<noteq> []"
    and "ingredients r \<noteq> []" and "instructions r \<noteq> []"
  shows "recipe_checks (json_of_recipe r) = Inr (json_of_recipe r)"
proof -
  have "missingFields (json_of_recipe r) = []"
    using assms by (simp add: missingFields_def requiredFields_def json_of_recipe_def not_js_def lit_def)
  then show ?thesis
    using assms by (simp add: recipe_checks_def json_of_recipe_def lit_def)
qed

section \<open>The claims about the recipe checks\<close>

text \<open>
  Claim C2, as stated, fails: the handler's list of required fields has
  \<open>titleVariations\<close> in it, so the fields reported for the payload with only a name and
  servings are not the four of the claim.
\<close>

theorem missing_fields_minimal_counterexample:
  "missingFields minimal_payload
     \<noteq> [lit ''prepTime'', lit ''cookTime'', lit ''ingredients'', lit ''instructions'']
   \<and> recipe_checks minimal_payload
     \<noteq> Inl (Error (lit ''Missing required fields: prepTime, cookTime, ingredients, instructions''))"
  by (simp add: json_eval minimal_payload_def)

text \<open>
  Claim C2, amended. For that payload the checks fail with the error that lists the
  five fields \<open>titleVariations\<close>, \<open>prepTime\<close>, \<open>cookTime\<close>, \<open>ingredients\<close> and
  \<open>instructions\<close>, in this order, and no other.
\<close>

theorem missing_fields_minimal:
  "missingFields minimal_payload
     = [lit ''titleVariations'', lit ''prepTime'', lit ''cookTime'', lit ''ingredients'',
        lit ''instructions'']
   \<and> recipe_checks minimal_payload
     = Inl (Error (lit
         ''Missing required fields: titleVariations, prepTime, cookTime, ingredients, instructions''))"
  by (simp add: json_eval minimal_payload_def)

theorem missing_fields_minimal_witness:
  "length (missingFields minimal_payload) = 5
   \<and> lit ''titleVariations'' \<in> set (missingFields minimal_payload)
   \<and> (\<exists>m. recipe_checks minimal_payload = Inl (Error m))"
  using missing_fields_minimal by simp

text \<open>
  Claim C3, as stated, fails: the payload has no \<open>titleVariations\<close>, and the
  missing-field check comes before the array checks.
\<close>

theorem empty_ingredients_counterexample:
  "recipe_checks (JObj empty_ingredients_fields)
     \<noteq> Inl (Error (lit ''ingredients must be a non-empty array''))"
  by (simp add: json_eval empty_ingredients_fields_def)

text \<open>
  Claim C3, amended. For that payload the checks fail with the missing-field error
  naming \<open>titleVariations\<close>; once the payload also has a non-empty \<open>titleVariations\<close>
  array they fail with the error that \<open>ingredients\<close> must be a non-empty array.
\<close>

theorem empty_ingredients:
  "recipe_checks (JObj empty_ingredients_fields)
     = Inl (Error (lit ''Missing required fields: titleVariations''))
   \<and> (\<forall>tv. tv \<noteq> [] \<longrightarrow>
        recipe_checks (JObj ((lit ''titleVariations'', JArr tv) # empty_ingredients_fields))
          = Inl (Error (lit ''ingredients must be a non-empty array'')))"
  by (simp add: json_eval empty_ingredients_fields_def)

theorem empty_ingredients_witness:
  "recipe_checks (JObj ((lit ''titleVariations'', JArr [JStr (lit ''X'')]) # empty_ingredients_fields))
     = Inl (Error (lit ''ingredients must be a non-empty array''))"
  using empty_ingredients by simp

text \<open>
  Claim C9. A required field that an object has, bound to a falsy value (the empty
  string, a zero, \<^verbatim>\<open>false\<close>, \<^verbatim>\<open>null\<close>), is among the missing fields, and the
  checks fail with the missing-field error instead of returning the object.
\<close>

theorem falsy_field_is_missing:
  assumes "field \<in> set requiredFields" and "map_of ps field = Some v" and "\<not> truthy v"
  shows "field \<in> set (missingFields (JObj ps))
    \<and> recipe_checks (JObj ps)
        = Inl (Error (lit ''Missing required fields: '' @ join (lit '', '') (missingFields (JObj ps))))"
proof -
  have m: "field \<in> set (missingFields (JObj ps))"
    using assms by (simp add: missingFields_def not_js_def)
  then have "missingFields (JObj ps) \<noteq> []"
    by auto
  then show ?thesis
    using m by (simp add: missingFields_nonempty_error)
qed

theorem falsy_field_is_missing_witness:
  "lit ''name'' \<in> set (missingFields (JObj falsy_payload))
   \<and> lit ''servings'' \<in> set (missingFields (JObj falsy_payload))
   \<and> lit ''prepTime'' \<in> set (missingFields (JObj falsy_payload))
   \<and> lit ''cookTime'' \<in> set (missingFields (JObj falsy_payload))
   \<and> recipe_checks (JObj falsy_payload)
       = Inl (Error (lit ''Missing required fields: name, servings, prepTime, cookTime''))"
proof -
  have m: "missingFields (JObj falsy_payload)
      = [lit ''name'', lit ''servings'', lit ''prepTime'', lit ''cookTime'']"
    by (simp add: json_eval falsy_payload_def)
  have "lit ''name'' \<in> set requiredFields" "map_of falsy_payload (lit ''name'') = Some (JStr [])"
    "\<not> truthy (JStr [])"
    by (simp_all add: requiredFields_def falsy_payload_def)
  then have a: "lit ''name'' \<in> set (missingFields (JObj falsy_payload))
    \<and> recipe_checks (JObj falsy_payload)
        = Inl (Error (lit ''Missing required fields: '' @ join (lit '', '') (missingFields (JObj falsy_payload))))"
    by (rule falsy_field_is_missing)
  have "lit ''servings'' \<in> set requiredFields"
    "map_of falsy_payload (lit ''servings'') = Some (JNum (Finite 0))" "\<not> truthy (JNum (Finite 0))"
    by (simp_all add: requiredFields_def falsy_payload_def lit_def)
  then have b: "lit ''servings'' \<in> set (missingFields (JObj falsy_payload))"
    using falsy_field_is_missing by blast
  have "lit ''prepTime'' \<in> set requiredFields"
    "map_of falsy_payload (lit ''prepTime'') = Some (JBool False)" "\<not> truthy (JBool False)"
    by (simp_all add: requiredFields_def falsy_payload_def lit_def)
  then have c: "lit ''prepTime'' \<in> set (missingFields (JObj falsy_payload))"
    using falsy_field_is_missing by blast
  have "lit ''cookTime'' \<in> set requiredFields"
    "map_of falsy_payload (lit ''cookTime'') = Some JNull" "\<not> truthy JNull"
    by (simp_all add: requiredFields_def falsy_payload_def lit_def)
  then have d: "lit ''cookTime'' \<in> set (missingFields (JObj falsy_payload))"
    using falsy_field_is_missing by blast
  have "lit ''Missing required fields: '' @ join (lit '', '') (missingFields (JObj falsy_payload))
      = lit ''Missing required fields: name, servings, prepTime, cookTime''"
    unfolding m by (simp add: lit_def)
  then show ?thesis
    using a b c d by simp
qed

section \<open>Properties of the serialiser\<close>

lemma guarded_append:
  assumes "guarded x" and "guarded y"
  shows "guarded (x @ y)"
proof -
  obtain x' q where x: "x = x' @ [q]"
    using assms(1) by (metis guarded_def rev_exhaust)
  then have q: "q \<noteq> 0x60"
    using assms(1) by (simp add: guarded_def)
  have "\<not> has_fence x'"
    using assms(1) has_fence_append_left [of x' "[q]"] by (auto simp: guarded_def x)
  then have "\<not> has_fence (x @ y)"
    using has_fence_append_sep [OF q, of x' y] assms(2) by (simp add: x guarded_def)
  then show ?thesis
    using assms by (simp add: guarded_def)
qed

lemma guarded_plain:
  assumes "x \<noteq> []" and "0x60 \<notin> set x"
  shows "guarded x"
proof -
  have "hd x \<in> set x" "last x \<in> set x"
    using assms(1) by simp_all
  then have "hd x \<noteq> 0x60" "last x \<noteq> 0x60"
    using assms(2) by auto
  then show ?thesis
    using assms by (simp add: guarded_def no_backtick_no_fence)
qed

lemma hex_digit_plain: "n < 16 \<Longrightarrow> hex_digit n \<noteq> 0x60"
proof -
  assume "n < 16"
  then have "hex_digit n \<in> set (lit ''0123456789abcdef'')"
    unfolding hex_digit_def by (intro nth_mem) (simp add: lit_def)
  then show ?thesis
    by (auto simp: lit_def)
qed

lemma UnicodeEscape_plain: "0x60 \<notin> set (UnicodeEscape c)"
  using hex_digit_plain by (auto simp: UnicodeEscape_def)

lemma UnicodeEscape_nonempty: "UnicodeEscape c \<noteq> []"
  by (simp add: UnicodeEscape_def)

lemma escape_unit_plain: "c \<noteq> 0x60 \<Longrightarrow> 0x60 \<notin> set (escape_unit c)"
  using UnicodeEscape_plain by (auto simp: escape_unit_def)

lemma escape_unit_nonempty: "escape_unit c \<noteq> []"
  by (simp add: escape_unit_def UnicodeEscape_def)

lemma escape_unit_backtick: "escape_unit 0x60 = [0x60]"
  by (simp add: escape_unit_def)

lemma surrogate_plain: "is_high_surrogate c \<or> is_low_surrogate c \<Longrightarrow> c \<noteq> 0x60"
  by (auto simp: is_high_surrogate_def is_low_surrogate_def)

lemma quote_units_backtick_head:
  assumes "quote_units cs = 0x60 # r"
  shows "\<exists>cs'. cs = 0x60 # cs' \<and> r = quote_units cs'"
proof (cases cs rule: quote_units.cases)
  case 1
  then show ?thesis using assms by simp
next
  case (2 c)
  then show ?thesis
    using assms
    by (auto simp: UnicodeEscape_def escape_unit_def split: if_splits)
next
  case (3 c d ds)
  then show ?thesis
    using assms surrogate_plain [of c]
    by (auto simp: UnicodeEscape_def escape_unit_def split: if_splits)
qed

lemma has_fence_quote_units: "has_fence (quote_units s) \<Longrightarrow> has_fence s"
proof (induction s rule: quote_units.induct)
  case 1
  then show ?case by simp
next
  case (2 c)
  have "\<not> has_fence (UnicodeEscape c)"
    by (rule no_backtick_no_fence) (rule UnicodeEscape_plain)
  moreover have "\<not> has_fence (escape_unit c)"
  proof (cases "c = 0x60")
    case True
    then show ?thesis by (simp add: escape_unit_backtick starts_with_def lit_def)
  next
    case False
    then show ?thesis by (intro no_backtick_no_fence escape_unit_plain)
  qed
  ultimately show ?case
    using "2.prems" by (simp split: if_splits)
next
  case (3 c d ds)
  show ?case
  proof (cases "is_high_surrogate c \<and> is_low_surrogate d")
    case True
    then have "c \<noteq> 0x60" "d \<noteq> 0x60"
      using surrogate_plain by blast+
    then show ?thesis
      using "3.prems" "3.IH"(1) True by (simp add: has_fence_Cons_other del: has_fence.simps(2))
  next
    case pair: False
    show ?thesis
    proof (cases "is_high_surrogate c \<or> is_low_surrogate c")
      case True
      then have "c \<noteq> 0x60"
        by (rule surrogate_plain)
      have "has_fence (UnicodeEscape c @ quote_units (d # ds))"
        using "3.prems" pair True by simp
      then have "has_fence (quote_units (d # ds))"
        by (simp add: has_fence_append_plain UnicodeEscape_plain UnicodeEscape_nonempty)
      then have "has_fence (d # ds)"
        using "3.IH"(2) pair True by blast
      then show ?thesis
        by simp
    next
      case False
      have hf: "has_fence (escape_unit c @ quote_units (d # ds))"
        using "3.prems" pair False by simp
      show ?thesis
      proof (cases "c = 0x60")
        case c: False
        have "has_fence (quote_units (d # ds))"
          using hf by (simp add: has_fence_append_plain escape_unit_plain [OF c] escape_unit_nonempty)
        then have "has_fence (d # ds)"
          using "3.IH"(3) pair False by blast
        then show ?thesis
          by simp
      next
        case c: True
        have "starts_with (lit ''```'') (0x60 # quote_units (d # ds)) \<or> has_fence (quote_units (d # ds))"
          using hf by (simp add: c escape_unit_backtick)
        then show ?thesis
        proof
          assume "has_fence (quote_units (d # ds))"
          then have "has_fence (d # ds)"
            using "3.IH"(3) pair False by blast
          then show ?thesis by simp
        next
          assume "starts_with (lit ''```'') (0x60 # quote_units (d # ds))"
          then obtain r where "0x60 # quote_units (d # ds) = lit ''```'' @ r"
            using starts_with_split by blast
          then have q1: "quote_units (d # ds) = 0x60 # 0x60 # r"
            by (simp add: lit_def)
          then obtain cs' where cs': "d # ds = 0x60 # cs'" "0x60 # r = quote_units cs'"
            using quote_units_backtick_head by blast
          then obtain cs'' where "cs' = 0x60 # cs''"
            using quote_units_backtick_head [of cs' r] by auto
          then have "c # d # ds = lit ''```'' @ cs''"
            using c cs' by (simp add: lit_def)
          then have "starts_with (lit ''```'') (c # d # ds)"
            by (simp add: starts_with_def)
          then show ?thesis
            by (rule has_fence_starts)
        qed
      qed
    qed
  qed
qed

lemma guarded_QuoteJSONString:
  assumes "\<not> has_fence s"
  shows "guarded (QuoteJSONString s)"
proof -
  have "\<not> has_fence (quote_units s)"
    using assms has_fence_quote_units by blast
  then have "\<not> has_fence (quote_units s @ [0x22])"
    using has_fence_append_sep [of "0x22" "quote_units s" "[]"] by simp
  then have "\<not> has_fence (0x22 # quote_units s @ [0x22])"
    by (simp add: has_fence_Cons_other del: has_fence.simps(2))
  then show ?thesis
    by (simp add: guarded_def QuoteJSONString_def)
qed

lemma guarded_join:
  "guarded sep \<Longrightarrow> xs \<noteq> [] \<Longrightarrow> list_all guarded xs \<Longrightarrow> guarded (join sep xs)"
proof (induction sep xs rule: join.induct)
  case (1 sep)
  then show ?case by simp
next
  case (2 sep x)
  then show ?case by simp
next
  case (3 sep x y ys)
  then have "guarded (join sep (y # ys))" "guarded x" "guarded sep"
    by simp_all
  then have "guarded (x @ sep @ join sep (y # ys))"
    by (intro guarded_append)
  then show ?case
    by simp
qed

lemma guarded_lit_units: "guarded (lit '','')" "guarded (lit ''['')" "guarded (lit '']'')"
  "guarded (lit ''{'')" "guarded (lit ''}'')" "guarded (lit '':'')" "guarded (lit ''[]'')"
  by (simp_all add: guarded_def lit_def starts_with_def)

lemma guarded_string_array:
  assumes "list_all (\<lambda>x. \<not> has_fence x) xs"
  shows "guarded (string_array xs)"
proof (cases "xs = []")
  case True
  then show ?thesis
    using guarded_lit_units(7) by (simp add: string_array_def lit_def)
next
  case False
  have "list_all guarded (map QuoteJSONString xs)"
    using assms by (simp add: list_all_iff guarded_QuoteJSONString)
  then have "guarded (join (lit '','') (map QuoteJSONString xs))"
    using False by (intro guarded_join guarded_lit_units) simp_all
  then show ?thesis
    unfolding string_array_def by (intro guarded_append guarded_lit_units)
qed

lemma guarded_member:
  assumes "\<not> has_fence k" and "guarded v"
  shows "guarded (member k v)"
  unfolding member_def
  using assms by (intro guarded_append guarded_lit_units guarded_QuoteJSONString)

lemma key_no_fence:
  "\<not> has_fence (lit ''name'')" "\<not> has_fence (lit ''titleVariations'')"
  "\<not> has_fence (lit ''servings'')" "\<not> has_fence (lit ''prepTime'')"
  "\<not> has_fence (lit ''cookTime'')" "\<not> has_fence (lit ''ingredients'')"
  "\<not> has_fence (lit ''instructions'')"
  by (simp_all add: lit_def starts_with_def)

lemma stringify_recipe_guarded:
  assumes "list_all (\<lambda>x. \<not> has_fence x) (recipe_strings r)"
  shows "guarded (stringify_recipe r)"
proof -
  have strs: "\<not> has_fence (name r)" "\<not> has_fence (servings r)" "\<not> has_fence (prepTime r)"
    "\<not> has_fence (cookTime r)" "list_all (\<lambda>x. \<not> has_fence x) (ingredients r)"
    "list_all (\<lambda>x. \<not> has_fence x) (instructions r)"
    using assms by (simp_all add: recipe_strings_def)
  have tv: "list_all (\<lambda>x. \<not> has_fence x) tv" if "titleVariations r = Some tv" for tv
    using assms that by (simp add: recipe_strings_def)
  have "list_all guarded
       ([member (lit ''name'') (QuoteJSONString (name r))]
        @ (case titleVariations r of
             None \<Rightarrow> []
           | Some tv \<Rightarrow> [member (lit ''titleVariations'') (string_array tv)])
        @ [member (lit ''servings'') (QuoteJSONString (servings r)),
           member (lit ''prepTime'') (QuoteJSONString (prepTime r)),
           member (lit ''cookTime'') (QuoteJSONString (cookTime r)),
           member (lit ''ingredients'') (string_array (ingredients r)),
           member (lit ''instructions'') (string_array (instructions r))])"
    using strs tv
    by (auto simp: guarded_member guarded_QuoteJSONString guarded_string_array key_no_fence
        split: option.splits)
  then show ?thesis
    unfolding stringify_recipe_def
    by (intro guarded_append guarded_join guarded_lit_units) simp_all
qed

lemma stringify_recipe_shape:
  "stringify_recipe r \<noteq> []" "hd (stringify_recipe r) = 0x7B" "last (stringify_recipe r) = 0x7D"
  by (simp_all add: stringify_recipe_def lit_def)

lemmas stringify_eval = stringify_recipe_def member_def string_array_def QuoteJSONString_def
  escape_unit_def is_high_surrogate_def is_low_surrogate_def lit_def

lemma stringify_demo_recipe: "stringify_recipe demo_recipe = demo_text"
  by (simp add: stringify_eval demo_recipe_def pancakes_def demo_text_def)

lemma stringify_backtick_recipe: "stringify_recipe backtick_recipe = backtick_text"
  by (simp add: stringify_eval backtick_recipe_def backtick_text_def)

lemma stringify_blank_step_recipe: "stringify_recipe blank_step_recipe = blank_step_text"
  by (simp add: stringify_eval backtick_recipe_def blank_step_recipe_def blank_step_text_def)

section \<open>Properties of the handler\<close>

lemma validateInput_call_strings:
  "validateInput_call (Some (JStr i)) (Some (JStr s)) = Inr (validateInput i s)"
  by (simp add: validateInput_call_def validateInput_def)

lemma validateInput_call_non_string:
  "\<not> is_string ing \<Longrightarrow>
    validateInput_call ing st = Inl (TypeError (TrimOfNonString (lit ''ingredients'') ing))"
  by (cases ing rule: is_string.cases) (simp_all add: validateInput_call_def)

lemma validateInput_call_steps_non_string:
  "trim i \<noteq> [] \<Longrightarrow> \<not> is_string st \<Longrightarrow>
    validateInput_call (Some (JStr i)) st = Inl (TypeError (TrimOfNonString (lit ''steps'') st))"
  by (cases st rule: is_string.cases) (simp_all add: validateInput_call_def)

lemma validateInput_call_blank:
  "trim i = [] \<Longrightarrow>
    validateInput_call (Some (JStr i)) st = Inr (Some (lit ''Ingredients and steps are required.''))"
  by (simp add: validateInput_call_def)

lemma POST_limited:
  assumes "fst (isRateLimited now (client_ip (forwarded_for req)) m)"
  shows "POST pf now req m =
    \<lparr>response = json_response (error_body (lit ''Rate limit exceeded. Please try again later.'')) 429,
     store = snd (isRateLimited now (client_ip (forwarded_for req)) m), prompts = []\<rparr>"
  using assms
  by (cases "isRateLimited now (client_ip (forwarded_for req)) m") (simp add: POST_def)

lemma POST_allowed_response:
  assumes "\<not> fst (isRateLimited now (client_ip (forwarded_for req)) m)"
    and "POST_body pf req = (Inr resp, sent)"
  shows "POST pf now req m =
    \<lparr>response = resp, store = snd (isRateLimited now (client_ip (forwarded_for req)) m),
     prompts = sent\<rparr>"
  using assms
  by (cases "isRateLimited now (client_ip (forwarded_for req)) m") (simp add: POST_def)

lemma POST_allowed_thrown:
  assumes "\<not> fst (isRateLimited now (client_ip (forwarded_for req)) m)"
    and "POST_body pf req = (Inl error, sent)"
  shows "POST pf now req m =
    \<lparr>response = json_response
       (error_body (case message pf error of Some d \<Rightarrow> d | None \<Rightarrow> lit ''Failed to generate recipe''))
       500,
     store = snd (isRateLimited now (client_ip (forwarded_for req)) m), prompts = sent\<rparr>"
  using assms
  by (cases "isRateLimited now (client_ip (forwarded_for req)) m") (simp add: POST_def)

lemma parse_recipe_fenced:
  assumes "JSON_parse pf s = Inr v"
    and "s \<noteq> []" and "hd s = 0x7B" and "last s = 0x7D" and "\<not> has_fence s"
  shows "parse_recipe pf (fenced s) = recipe_checks v"
  using assms by (simp add: parse_recipe_def clean_fenced)

lemma demo_text_shape:
  "demo_text \<noteq> []" "hd demo_text = 0x7B" "last demo_text = 0x7D" "\<not> has_fence demo_text"
  by (simp_all add: demo_text_def lit_def starts_with_def)

lemma demo_recipe_checks:
  "recipe_checks (json_of_recipe demo_recipe) = Inr (json_of_recipe demo_recipe)"
  by (rule recipe_checks_json_of_recipe [where tv = "[lit ''Easy Pancakes'']"])
    (simp_all add: demo_recipe_def pancakes_def lit_def)

lemma demo_parse_recipe:
  "parse_recipe demo_platform (fenced demo_text) = Inr (json_of_recipe demo_recipe)"
proof -
  have "JSON_parse demo_platform demo_text = Inr (json_of_recipe demo_recipe)"
    by (simp add: demo_platform_def)
  then have "parse_recipe demo_platform (fenced demo_text) = recipe_checks (json_of_recipe demo_recipe)"
    using demo_text_shape by (rule parse_recipe_fenced)
  then show ?thesis
    by (simp add: demo_recipe_checks)
qed

lemma demo_client_ip: "client_ip (forwarded_for demo_request) = lit ''10.0.0.7''"
  by (simp add: demo_request_def client_ip_def lit_def)

lemma demo_not_limited:
  "\<not> fst (isRateLimited 1000 (client_ip (forwarded_for (demo_request\<lparr>json_body := jb\<rparr>))) Map.empty)"
  by (simp add: isRateLimited_def)

lemma demo_validateInput: "validateInput (lit ''2 eggs, 1 cup flour'') (lit ''mix, bake'') = None"
  by (simp add: validateInput_def trim_empty_iff MAX_TOKENS_def lit_def is_space_def)

lemma blank_validateInput:
  "validateInput (lit ''  '') (lit ''mix, bake'') = Some (lit ''Ingredients and steps are required.'')"
  by (simp add: validateInput_def trim_empty_iff lit_def is_space_def)

lemma failing_parse_recipe:
  "parse_recipe failing_platform (lit ''Sorry, no recipe.'') = Inl (SyntaxError (lit ''Unexpected token''))"
proof -
  have "clean (lit ''Sorry, no recipe.'') = lit ''Sorry, no recipe.''"
    by (simp add: sanitizer_eval)
  moreover have "lit ''Sorry, no recipe.'' \<noteq> demo_text"
    by (simp add: demo_text_def lit_def)
  ultimately show ?thesis
    by (simp add: parse_recipe_def failing_platform_def demo_platform_def)
qed

section \<open>The claims about the handler\<close>

lemma POST_body_validated:
  assumes "json_body req = Inr b"
    and "get_property b (lit ''ingredients'') = Some (JStr i)"
    and "get_property b (lit ''steps'') = Some (JStr s)"
    and "validateInput i s = None"
  shows "POST_body pf req =
    (case interpolate pf (get_property b (lit ''tone'')) of
       Inl error \<Rightarrow> (Inl error, [])
     | Inr toneText \<Rightarrow>
         (case generateContent pf (prompt_text toneText i s) of
            Inl error \<Rightarrow> (Inl error, [prompt_text toneText i s])
          | Inr reply \<Rightarrow> (Inr (parse_response pf reply), [prompt_text toneText i s])))"
proof -
  have "b \<noteq> JNull"
    using assms(2) by auto
  then show ?thesis
    using assms
    by (simp add: POST_body_def validateInput_call_strings interpolate_def split: sum.splits)
qed

text \<open>
  Claim C7. The handler maps each outcome to its status. A request the rate limiter
  denies gets 429 with the rate limit message, whatever its body is, and no prompt is
  sent. A request that is let through and whose \<open>ingredients\<close> and \<open>steps\<close> are
  strings gets 400 with the message of \<open>validateInput\<close> when that returns one, and no
  prompt is sent. When \<open>validateInput\<close> accepts: if the conversion of the tone for the
  prompt throws, it gets 500 and no prompt is sent; if the generative model throws, it gets
  500; if the model replies, it gets 500 with \<^verbatim>\<open>Invalid recipe format:\<close> followed by
  the message of what the parse or the checks threw when they throw, and 200 with the
  recipe as the body otherwise.
\<close>

theorem handler_status_mapping:
  "(fst (isRateLimited now (client_ip (forwarded_for req)) m) \<longrightarrow>
      status (response (POST pf now req m)) = 429
      \<and> body (response (POST pf now req m))
          = error_body (lit ''Rate limit exceeded. Please try again later.'')
      \<and> prompts (POST pf now req m) = [])
   \<and> (\<not> fst (isRateLimited now (client_ip (forwarded_for req)) m)
       \<and> json_body req = Inr b
       \<and> get_property b (lit ''ingredients'') = Some (JStr i)
       \<and> get_property b (lit ''steps'') = Some (JStr s) \<longrightarrow>
        (\<forall>e. validateInput i s = Some e \<longrightarrow>
           status (response (POST pf now req m)) = 400
           \<and> body (response (POST pf now req m)) = error_body e
           \<and> prompts (POST pf now req m) = [])
        \<and> (\<forall>error. validateInput i s = None
              \<and> interpolate pf (get_property b (lit ''tone'')) = Inl error \<longrightarrow>
              status (response (POST pf now req m)) = 500
              \<and> body (response (POST pf now req m))
                  = error_body (case message pf error of
                                  Some d \<Rightarrow> d | None \<Rightarrow> lit ''Failed to generate recipe'')
              \<and> prompts (POST pf now req m) = [])
        \<and> (\<forall>toneText. validateInput i s = None
              \<and> interpolate pf (get_property b (lit ''tone'')) = Inr toneText \<longrightarrow>
              (\<forall>error. generateContent pf (prompt_text toneText i s) = Inl error \<longrightarrow>
                 status (response (POST pf now req m)) = 500
                 \<and> body (response (POST pf now req m))
                     = error_body (case message pf error of
                                     Some d \<Rightarrow> d | None \<Rightarrow> lit ''Failed to generate recipe''))
              \<and> (\<forall>reply. generateContent pf (prompt_text toneText i s) = Inr reply \<longrightarrow>
                   (\<forall>error. parse_recipe pf reply = Inl error \<longrightarrow>
                      status (response (POST pf now req m)) = 500
                      \<and> (\<exists>d. message pf error = Some d
                           \<and> body (response (POST pf now req m))
                               = error_body (lit ''Invalid recipe format: '' @ d)))
                   \<and> (\<forall>recipe. parse_recipe pf reply = Inr recipe \<longrightarrow>
                        status (response (POST pf now req m)) = 200
                        \<and> body (response (POST pf now req m)) = recipe))))"
proof (intro conjI impI allI)
  assume "fst (isRateLimited now (client_ip (forwarded_for req)) m)"
  then show "status (response (POST pf now req m)) = 429"
    "body (response (POST pf now req m)) = error_body (lit ''Rate limit exceeded. Please try again later.'')"
    "prompts (POST pf now req m) = []"
    by (simp_all add: POST_limited json_response_def)
next
  fix e
  assume a: "\<not> fst (isRateLimited now (client_ip (forwarded_for req)) m)
       \<and> json_body req = Inr b
       \<and> get_property b (lit ''ingredients'') = Some (JStr i)
       \<and> get_property b (lit ''steps'') = Some (JStr s)"
    and e: "validateInput i s = Some e"
  have nn: "b \<noteq> JNull"
    using a by auto
  have pb: "POST_body pf req = (Inr (json_response (error_body e) 400), [])"
    using a e nn by (simp add: POST_body_def validateInput_call_strings)
  show "status (response (POST pf now req m)) = 400"
    "body (response (POST pf now req m)) = error_body e"
    "prompts (POST pf now req m) = []"
    using a pb by (simp_all add: POST_allowed_response json_response_def)
next
  fix error
  assume a: "\<not> fst (isRateLimited now (client_ip (forwarded_for req)) m)
       \<and> json_body req = Inr b
       \<and> get_property b (lit ''ingredients'') = Some (JStr i)
       \<and> get_property b (lit ''steps'') = Some (JStr s)"
    and t: "validateInput i s = None \<and> interpolate pf (get_property b (lit ''tone'')) = Inl error"
  have pb: "POST_body pf req = (Inl error, [])"
    using a t by (simp add: POST_body_validated [of req b i s])
  show "status (response (POST pf now req m)) = 500"
    "body (response (POST pf now req m))
      = error_body (case message pf error of Some d \<Rightarrow> d | None \<Rightarrow> lit ''Failed to generate recipe'')"
    "prompts (POST pf now req m) = []"
    using a pb by (simp_all add: POST_allowed_thrown json_response_def)
next
  fix toneText error
  assume a: "\<not> fst (isRateLimited now (client_ip (forwarded_for req)) m)
       \<and> json_body req = Inr b
       \<and> get_property b (lit ''ingredients'') = Some (JStr i)
       \<and> get_property b (lit ''steps'') = Some (JStr s)"
    and t: "validateInput i s = None \<and> interpolate pf (get_property b (lit ''tone'')) = Inr toneText"
    and g: "generateContent pf (prompt_text toneText i s) = Inl error"
  have pb: "POST_body pf req = (Inl error, [prompt_text toneText i s])"
    using a t g by (simp add: POST_body_validated [of req b i s])
  show "status (response (POST pf now req m)) = 500"
    "body (response (POST pf now req m))
      = error_body (case message pf error of Some d \<Rightarrow> d | None \<Rightarrow> lit ''Failed to generate recipe'')"
    using a pb by (simp_all add: POST_allowed_thrown json_response_def)
next
  fix toneText reply error
  assume a: "\<not> fst (isRateLimited now (client_ip (forwarded_for req)) m)
       \<and> json_body req = Inr b
       \<and> get_property b (lit ''ingredients'') = Some (JStr i)
       \<and> get_property b (lit ''steps'') = Some (JStr s)"
    and t: "validateInput i s = None \<and> interpolate pf (get_property b (lit ''tone'')) = Inr toneText"
    and g: "generateContent pf (prompt_text toneText i s) = Inr reply"
    and p: "parse_recipe pf reply = Inl error"
  have pb: "POST_body pf req = (Inr (parse_response pf reply), [prompt_text toneText i s])"
    using a t g by (simp add: POST_body_validated [of req b i s])
  obtain d where d: "message pf error = Some d"
    using parse_recipe_message [OF p] by blast
  have r: "response (POST pf now req m)
      = json_response (error_body (lit ''Invalid recipe format: '' @ d)) 500"
    using a pb p d by (simp add: POST_allowed_response parse_response_def)
  show "status (response (POST pf now req m)) = 500"
    using r by (simp add: json_response_def)
  show "\<exists>d. message pf error = Some d
      \<and> body (response (POST pf now req m)) = error_body (lit ''Invalid recipe format: '' @ d)"
    using r d by (simp add: json_response_def)
next
  fix toneText reply recipe
  assume a: "\<not> fst (isRateLimited now (client_ip (forwarded_for req)) m)
       \<and> json_body req = Inr b
       \<and> get_property b (lit ''ingredients'') = Some (JStr i)
       \<and> get_property b (lit ''steps'') = Some (JStr s)"
    and t: "validateInput i s = None \<and> interpolate pf (get_property b (lit ''tone'')) = Inr toneText"
    and g: "generateContent pf (prompt_text toneText i s) = Inr reply"
    and p: "parse_recipe pf reply = Inr recipe"
  have pb: "POST_body pf req = (Inr (parse_response pf reply), [prompt_text toneText i s])"
    using a t g by (simp add: POST_body_validated [of req b i s])
  have r: "response (POST pf now req m) = json_response recipe 200"
    using a pb p by (simp add: POST_allowed_response parse_response_def)
  show "status (response (POST pf now req m)) = 200"
    "body (response (POST pf now req m)) = recipe"
    using r by (simp_all add: json_response_def)
qed

theorem handler_status_mapping_witness:
  "status (response (POST demo_platform 1000 demo_request busy_store)) = 429
   \<and> prompts (POST demo_platform 1000 demo_request busy_store) = []
   \<and> status (response (POST demo_platform 1000 (demo_request\<lparr>json_body := Inr blank_body\<rparr>) Map.empty)) = 400
   \<and> status (response (POST demo_platform 1000 (demo_request\<lparr>json_body := Inr odd_tone_body\<rparr>) Map.empty)) = 500
   \<and> prompts (POST demo_platform 1000 (demo_request\<lparr>json_body := Inr odd_tone_body\<rparr>) Map.empty) = []
   \<and> status (response (POST offline_platform 1000 demo_request Map.empty)) = 500
   \<and> body (response (POST offline_platform 1000 demo_request Map.empty)) = error_body (lit ''fetch failed'')
   \<and> status (response (POST failing_platform 1000 demo_request Map.empty)) = 500
   \<and> body (response (POST failing_platform 1000 demo_request Map.empty))
       = error_body (lit ''Invalid recipe format: Unexpected token'')
   \<and> status (response (POST demo_platform 1000 demo_request Map.empty)) = 200
   \<and> body (response (POST demo_platform 1000 demo_request Map.empty)) = json_of_recipe demo_recipe"
proof -
  have limited: "fst (isRateLimited 1000 (client_ip (forwarded_for demo_request)) busy_store)"
    by (simp add: demo_client_ip isRateLimited_def busy_store_def RATE_LIMIT_WINDOW_def
        MAX_REQUESTS_PER_IP_def)
  have c1: "status (response (POST demo_platform 1000 demo_request busy_store)) = 429
      \<and> prompts (POST demo_platform 1000 demo_request busy_store) = []"
    using handler_status_mapping [of 1000 demo_request busy_store demo_platform] limited by blast
  have blank_fields:
    "json_body (demo_request\<lparr>json_body := Inr blank_body\<rparr>) = Inr blank_body"
    "get_property blank_body (lit ''ingredients'') = Some (JStr (lit ''  ''))"
    "get_property blank_body (lit ''steps'') = Some (JStr (lit ''mix, bake''))"
    by (simp_all add: blank_body_def lit_def)
  have c2: "status (response (POST demo_platform 1000 (demo_request\<lparr>json_body := Inr blank_body\<rparr>) Map.empty)) = 400"
    using handler_status_mapping [of 1000 "demo_request\<lparr>json_body := Inr blank_body\<rparr>" Map.empty
        demo_platform blank_body "lit ''  ''" "lit ''mix, bake''"]
      demo_not_limited [of "Inr blank_body"] blank_fields blank_validateInput
    by blast
  have odd_fields:
    "json_body (demo_request\<lparr>json_body := Inr odd_tone_body\<rparr>) = Inr odd_tone_body"
    "get_property odd_tone_body (lit ''ingredients'') = Some (JStr (lit ''2 eggs''))"
    "get_property odd_tone_body (lit ''steps'') = Some (JStr (lit ''mix''))"
    by (simp_all add: odd_tone_body_def lit_def)
  have odd_valid: "validateInput (lit ''2 eggs'') (lit ''mix'') = None"
    by (simp add: validateInput_def trim_empty_iff MAX_TOKENS_def lit_def is_space_def)
  have odd_tone: "interpolate demo_platform (get_property odd_tone_body (lit ''tone''))
      = Inl (TypeError (ToPrimitive (JObj [(lit ''toString'', JNum (Finite 1))])))"
    by (simp add: odd_tone_body_def interpolate_def demo_platform_def lit_def)
  have c5: "status (response (POST demo_platform 1000 (demo_request\<lparr>json_body := Inr odd_tone_body\<rparr>) Map.empty)) = 500
      \<and> prompts (POST demo_platform 1000 (demo_request\<lparr>json_body := Inr odd_tone_body\<rparr>) Map.empty) = []"
    using handler_status_mapping [of 1000 "demo_request\<lparr>json_body := Inr odd_tone_body\<rparr>" Map.empty
        demo_platform odd_tone_body "lit ''2 eggs''" "lit ''mix''"]
      demo_not_limited [of "Inr odd_tone_body"] odd_fields odd_valid odd_tone
    by blast
  have demo_fields:
    "json_body demo_request = Inr demo_body"
    "get_property demo_body (lit ''ingredients'') = Some (JStr (lit ''2 eggs, 1 cup flour''))"
    "get_property demo_body (lit ''steps'') = Some (JStr (lit ''mix, bake''))"
    by (simp_all add: demo_request_def demo_body_def lit_def)
  have allowed: "\<not> fst (isRateLimited 1000 (client_ip (forwarded_for demo_request)) Map.empty)"
    by (simp add: isRateLimited_def)
  have tone: "interpolate pf (get_property demo_body (lit ''tone'')) = Inr (lit ''concise'')" for pf
    by (simp add: demo_body_def interpolate_def lit_def)
  have gen_off: "generateContent offline_platform p = Inl (Error (lit ''fetch failed''))" for p
    by (simp add: offline_platform_def)
  have c6: "status (response (POST offline_platform 1000 demo_request Map.empty)) = 500
      \<and> body (response (POST offline_platform 1000 demo_request Map.empty))
          = error_body (case message offline_platform (Error (lit ''fetch failed'')) of
                          Some d \<Rightarrow> d | None \<Rightarrow> lit ''Failed to generate recipe'')"
    using handler_status_mapping [of 1000 demo_request Map.empty offline_platform demo_body
        "lit ''2 eggs, 1 cup flour''" "lit ''mix, bake''"]
      allowed demo_fields demo_validateInput tone gen_off
    by blast
  have gen_fail: "generateContent failing_platform p = Inr (lit ''Sorry, no recipe.'')" for p
    by (simp add: failing_platform_def)
  have msg: "message failing_platform (SyntaxError (lit ''Unexpected token'')) = Some (lit ''Unexpected token'')"
    by simp
  have c3: "status (response (POST failing_platform 1000 demo_request Map.empty)) = 500
      \<and> (\<exists>d. message failing_platform (SyntaxError (lit ''Unexpected token'')) = Some d
           \<and> body (response (POST failing_platform 1000 demo_request Map.empty))
               = error_body (lit ''Invalid recipe format: '' @ d))"
    using handler_status_mapping [of 1000 demo_request Map.empty failing_platform demo_body
        "lit ''2 eggs, 1 cup flour''" "lit ''mix, bake''"]
      allowed demo_fields demo_validateInput tone gen_fail failing_parse_recipe
    by blast
  have gen_ok: "generateContent demo_platform p = Inr (fenced demo_text)" for p
    by (simp add: demo_platform_def)
  have c4: "status (response (POST demo_platform 1000 demo_request Map.empty)) = 200
      \<and> body (response (POST demo_platform 1000 demo_request Map.empty)) = json_of_recipe demo_recipe"
    using handler_status_mapping [of 1000 demo_request Map.empty demo_platform demo_body
        "lit ''2 eggs, 1 cup flour''" "lit ''mix, bake''"]
      allowed demo_fields demo_validateInput tone gen_ok demo_parse_recipe
    by blast
  have "lit ''Invalid recipe format: '' @ lit ''Unexpected token'' = lit ''Invalid recipe format: Unexpected token''"
    by (simp add: lit_def)
  then show ?thesis
    using c1 c2 c3 c4 c5 c6 msg by auto
qed

text \<open>
  Claim C10, as stated, fails: when \<open>ingredients\<close> is a blank string the handler
  answers 400 without looking at \<open>steps\<close>, also when \<open>steps\<close> is absent; and a request
  the rate limiter denies gets 429 whatever its body lacks.
\<close>

theorem non_string_input_counterexample:
  "get_property steps_missing_body (lit ''steps'') = None
   \<and> status (response (POST demo_platform 1000
        (demo_request\<lparr>json_body := Inr steps_missing_body\<rparr>) Map.empty)) = 400
   \<and> get_property ingredients_missing_body (lit ''ingredients'') = None
   \<and> status (response (POST demo_platform 1000
        (demo_request\<lparr>json_body := Inr ingredients_missing_body\<rparr>) busy_store)) = 429"
proof -
  have "POST_body demo_platform (demo_request\<lparr>json_body := Inr steps_missing_body\<rparr>)
      = (Inr (json_response (error_body (lit ''Ingredients and steps are required.'')) 400), [])"
    by (simp add: POST_body_def steps_missing_body_def validateInput_call_def trim_empty_iff
        lit_def is_space_def)
  then have "status (response (POST demo_platform 1000
        (demo_request\<lparr>json_body := Inr steps_missing_body\<rparr>) Map.empty)) = 400"
    using demo_not_limited [of "Inr steps_missing_body"]
    by (simp add: POST_allowed_response json_response_def)
  moreover have "fst (isRateLimited 1000
      (client_ip (forwarded_for (demo_request\<lparr>json_body := Inr ingredients_missing_body\<rparr>))) busy_store)"
    by (simp add: demo_request_def client_ip_def lit_def isRateLimited_def busy_store_def
        RATE_LIMIT_WINDOW_def MAX_REQUESTS_PER_IP_def)
  then have "status (response (POST demo_platform 1000
        (demo_request\<lparr>json_body := Inr ingredients_missing_body\<rparr>) busy_store)) = 429"
    by (simp add: POST_limited json_response_def)
  ultimately show ?thesis
    by (simp add: steps_missing_body_def ingredients_missing_body_def lit_def)
qed

text \<open>
  Claim C10, amended. For a request the rate limiter lets through and whose body was
  read: when \<open>ingredients\<close> is absent or not a string, or is a string that is not blank
  while \<open>steps\<close> is absent or not a string, the handler answers 500 with the message of
  a \<^verbatim>\<open>TypeError\<close> and sends no prompt; when \<open>ingredients\<close> is a blank string it
  answers 400 with the empty-input message, whatever \<open>steps\<close> is.
\<close>

theorem non_string_input_status:
  assumes "\<not> fst (isRateLimited now (client_ip (forwarded_for req)) m)"
    and "json_body req = Inr b"
  shows "(\<not> is_string (get_property b (lit ''ingredients''))
          \<or> (\<exists>i. get_property b (lit ''ingredients'') = Some (JStr i) \<and> trim i \<noteq> []
                \<and> \<not> is_string (get_property b (lit ''steps''))) \<longrightarrow>
            status (response (POST pf now req m)) = 500
            \<and> (\<exists>t. body (response (POST pf now req m)) = error_body (type_error_message pf t))
            \<and> prompts (POST pf now req m) = [])
       \<and> (\<forall>i. get_property b (lit ''ingredients'') = Some (JStr i) \<and> trim i = [] \<longrightarrow>
            status (response (POST pf now req m)) = 400
            \<and> body (response (POST pf now req m))
                = error_body (lit ''Ingredients and steps are required.''))"
proof (intro conjI impI allI)
  assume h: "\<not> is_string (get_property b (lit ''ingredients''))
          \<or> (\<exists>i. get_property b (lit ''ingredients'') = Some (JStr i) \<and> trim i \<noteq> []
                \<and> \<not> is_string (get_property b (lit ''steps'')))"
  have "\<exists>t. POST_body pf req = (Inl (TypeError t), [])"
  proof (cases "b = JNull")
    case True
    then show ?thesis using assms(2) by (simp add: POST_body_def)
  next
    case False
    have "\<exists>t. validateInput_call (get_property b (lit ''ingredients'')) (get_property b (lit ''steps''))
        = Inl (TypeError t)"
      using h validateInput_call_non_string validateInput_call_steps_non_string by fastforce
    then show ?thesis
      using False assms(2) by (auto simp: POST_body_def)
  qed
  then obtain t where "POST_body pf req = (Inl (TypeError t), [])" ..
  then have r: "POST pf now req m =
      \<lparr>response = json_response (error_body (type_error_message pf t)) 500,
       store = snd (isRateLimited now (client_ip (forwarded_for req)) m), prompts = []\<rparr>"
    using assms(1) by (simp add: POST_allowed_thrown)
  show "status (response (POST pf now req m)) = 500"
    "\<exists>t. body (response (POST pf now req m)) = error_body (type_error_message pf t)"
    "prompts (POST pf now req m) = []"
    using r by (auto simp: json_response_def)
next
  fix i
  assume h: "get_property b (lit ''ingredients'') = Some (JStr i) \<and> trim i = []"
  then have "b \<noteq> JNull"
    by auto
  then have "POST_body pf req
      = (Inr (json_response (error_body (lit ''Ingredients and steps are required.'')) 400), [])"
    using h assms(2) by (simp add: POST_body_def validateInput_call_blank)
  then show "status (response (POST pf now req m)) = 400"
    "body (response (POST pf now req m)) = error_body (lit ''Ingredients and steps are required.'')"
    using assms(1) by (simp_all add: POST_allowed_response json_response_def)
qed

theorem non_string_input_status_witness:
  "status (response (POST demo_platform 1000
      (demo_request\<lparr>json_body := Inr ingredients_missing_body\<rparr>) Map.empty)) = 500
   \<and> status (response (POST demo_platform 1000
      (demo_request\<lparr>json_body := Inr steps_number_body\<rparr>) Map.empty)) = 500
   \<and> status (response (POST demo_platform 1000
      (demo_request\<lparr>json_body := Inr steps_missing_body\<rparr>) Map.empty)) = 400"
proof -
  have a: "\<not> is_string (get_property ingredients_missing_body (lit ''ingredients''))"
    by (simp add: ingredients_missing_body_def lit_def)
  have b: "get_property steps_number_body (lit ''ingredients'') = Some (JStr (lit ''2 eggs''))
      \<and> trim (lit ''2 eggs'') \<noteq> []
      \<and> \<not> is_string (get_property steps_number_body (lit ''steps''))"
    by (simp add: steps_number_body_def trim_empty_iff lit_def is_space_def)
  have c: "get_property steps_missing_body (lit ''ingredients'') = Some (JStr (lit ''  ''))
      \<and> trim (lit ''  '') = []"
    by (simp add: steps_missing_body_def trim_empty_iff lit_def is_space_def)
  have body: "json_body (demo_request\<lparr>json_body := Inr v\<rparr>) = Inr v" for v
    by simp
  show ?thesis
    using non_string_input_status [OF demo_not_limited body, of ingredients_missing_body demo_platform] a
      non_string_input_status [OF demo_not_limited body, of steps_number_body demo_platform] b
      non_string_input_status [OF demo_not_limited body, of steps_missing_body demo_platform] c
    by blast
qed

text \<open>
  Claim C4, as stated, fails. The recipe of the specification's own scenario has no
  title variations, and a recipe may have an empty \<open>servings\<close>: the checks never
  return either, whatever text is parsed by whatever parser. A recipe with three
  backticks in an instruction does not survive the sanitizer: the text that reaches the
  parser is the JSON text of the recipe with an empty instruction, so no parser returns
  both recipes from their own fenced texts.
\<close>

theorem fenced_roundtrip_counterexample:
  "well_formed pancakes
   \<and> \<not> (\<exists>pf reply. parse_recipe pf reply = Inr (json_of_recipe pancakes))
   \<and> well_formed (demo_recipe\<lparr>servings := []\<rparr>)
   \<and> \<not> (\<exists>pf reply. parse_recipe pf reply = Inr (json_of_recipe (demo_recipe\<lparr>servings := []\<rparr>)))
   \<and> well_formed backtick_recipe \<and> well_formed blank_step_recipe
   \<and> clean (fenced (stringify_recipe backtick_recipe)) = stringify_recipe blank_step_recipe
   \<and> \<not> (\<exists>pf. parse_recipe pf (fenced (stringify_recipe backtick_recipe))
              = Inr (json_of_recipe backtick_recipe)
            \<and> parse_recipe pf (fenced (stringify_recipe blank_step_recipe))
              = Inr (json_of_recipe blank_step_recipe))"
proof -
  have wf: "well_formed pancakes" "well_formed (demo_recipe\<lparr>servings := []\<rparr>)"
    "well_formed backtick_recipe" "well_formed blank_step_recipe"
    by (simp_all add: well_formed_def pancakes_def demo_recipe_def backtick_recipe_def
        blank_step_recipe_def)
  have "recipe_checks (json_of_recipe pancakes) \<noteq> Inr (json_of_recipe pancakes)"
    by (simp add: json_eval json_of_recipe_def pancakes_def)
  then have a: "\<not> (\<exists>pf reply. parse_recipe pf reply = Inr (json_of_recipe pancakes))"
    using parse_recipe_checked by blast
  have "recipe_checks (json_of_recipe (demo_recipe\<lparr>servings := []\<rparr>))
      \<noteq> Inr (json_of_recipe (demo_recipe\<lparr>servings := []\<rparr>))"
    by (simp add: json_eval json_of_recipe_def demo_recipe_def pancakes_def)
  then have b: "\<not> (\<exists>pf reply. parse_recipe pf reply
      = Inr (json_of_recipe (demo_recipe\<lparr>servings := []\<rparr>)))"
    using parse_recipe_checked by blast
  have same: "parse_recipe pf (fenced backtick_text) = parse_recipe pf (fenced blank_step_text)" for pf
    by (simp add: parse_recipe_def backtick_text_clean blank_step_text_clean)
  have "json_of_recipe backtick_recipe \<noteq> json_of_recipe blank_step_recipe"
    by (simp add: json_of_recipe_def backtick_recipe_def blank_step_recipe_def lit_def)
  then have c: "\<not> (\<exists>pf. parse_recipe pf (fenced backtick_text) = Inr (json_of_recipe backtick_recipe)
            \<and> parse_recipe pf (fenced blank_step_text) = Inr (json_of_recipe blank_step_recipe))"
    using same by auto
  show ?thesis
    unfolding stringify_backtick_recipe stringify_blank_step_recipe
    using wf a b c backtick_text_clean by blast
qed

text \<open>
  Claim C4, amended. Take a recipe with title variations whose four strings and three
  sequences are not empty and none of whose strings has three backticks in a row, and
  let \<^verbatim>\<open>JSON.parse\<close> map the recipe's JSON text back to the recipe's value. Then
  cleaning the fenced JSON text gives the JSON text back, the parse and the checks return
  the recipe's value unchanged, and the response is 200 with that value.
\<close>

theorem fenced_roundtrip:
  assumes "name r \<noteq> []" and "titleVariations r = Some tv" and "tv \<noteq> []"
    and "servings r \<noteq> []" and "prepTime r \<noteq> []" and "cookTime r \<noteq> []"
    and "ingredients r \<noteq> []" and "instructions r \<noteq> []"
    and "list_all (\<lambda>x. \<not> has_fence x) (recipe_strings r)"
    and "JSON_parse pf (stringify_recipe r) = Inr (json_of_recipe r)"
  shows "clean (fenced (stringify_recipe r)) = stringify_recipe r
    \<and> parse_recipe pf (fenced (stringify_recipe r)) = Inr (json_of_recipe r)
    \<and> parse_response pf (fenced (stringify_recipe r)) = json_response (json_of_recipe r) 200"
proof -
  have nf: "\<not> has_fence (stringify_recipe r)"
    using stringify_recipe_guarded [OF assms(9)] by (simp add: guarded_def)
  have c: "clean (fenced (stringify_recipe r)) = stringify_recipe r"
    using nf stringify_recipe_shape by (rule clean_fenced)
  have "parse_recipe pf (fenced (stringify_recipe r)) = recipe_checks (json_of_recipe r)"
    using assms(10) stringify_recipe_shape nf by (rule parse_recipe_fenced)
  also have "\<dots> = Inr (json_of_recipe r)"
    using assms(1-8) by (rule recipe_checks_json_of_recipe)
  finally have p: "parse_recipe pf (fenced (stringify_recipe r)) = Inr (json_of_recipe r)" .
  then show ?thesis
    using c by (simp add: parse_response_def)
qed

theorem fenced_roundtrip_witness:
  "clean (fenced (stringify_recipe demo_recipe)) = stringify_recipe demo_recipe
   \<and> parse_recipe demo_platform (fenced (stringify_recipe demo_recipe)) = Inr (json_of_recipe demo_recipe)
   \<and> parse_response demo_platform (fenced (stringify_recipe demo_recipe))
       = json_response (json_of_recipe demo_recipe) 200"
proof -
  have fields: "name demo_recipe \<noteq> []" "titleVariations demo_recipe = Some [lit ''Easy Pancakes'']"
    "[lit ''Easy Pancakes''] \<noteq> []" "servings demo_recipe \<noteq> []" "prepTime demo_recipe \<noteq> []"
    "cookTime demo_recipe \<noteq> []" "ingredients demo_recipe \<noteq> []" "instructions demo_recipe \<noteq> []"
    by (simp_all add: demo_recipe_def pancakes_def lit_def)
  have plain: "list_all (\<lambda>x. \<not> has_fence x) (recipe_strings demo_recipe)"
    by (simp add: recipe_strings_def demo_recipe_def pancakes_def lit_def starts_with_def)
  have parsed: "JSON_parse demo_platform (stringify_recipe demo_recipe) = Inr (json_of_recipe demo_recipe)"
    by (simp add: stringify_demo_recipe demo_platform_def)
  show ?thesis
    using fields plain parsed by (rule fenced_roundtrip)
qed

end
